theory Spec2Isabelle
  imports Complex_Main
begin

section \<open>Numbers, nulls and arrays of the JavaScript source\<close>

text \<open>
  The server (app.js) keeps three global arrays: \<open>plasmaBuffer\<close>, \<open>magBuffer\<close> and
  \<open>detections\<close>. Every measured value has passed \<open>safeNum\<close>, which returns a finite number
  or \<open>null\<close>; a nullable number is a \<open>real option\<close> here.

  A JavaScript number is an IEEE 754 binary64 value. A finite one is modelled as the real
  it denotes, and every arithmetic operation of the source as the exact operation followed
  by \<open>rnd\<close>, the rounding to the nearest binary64 value with ties to the even significand:
  this is what IEEE 754 prescribes for \<open>+\<close>, \<open>-\<close>, \<open>*\<close>, \<open>/\<close> and the square root, which
  \<open>Math.sqrt\<close> computes with the processor's instruction.
  Comparisons, negation, \<open>Math.abs\<close>, \<open>Math.max\<close>, \<open>Math.min\<close> and \<open>Math.round\<close> are exact on
  doubles and stay as they are on reals. A decimal literal of the source that is not itself
  a double, such as \<open>0.00001\<close>, is the rounding of its decimal value. The model has no
  infinities and no NaN: it covers the runs in which no result exceeds the double range
  (about 1.8e308), and it does not tell \<open>-0\<close> from \<open>0\<close>.
\<close>

definition round_even :: "real \<Rightarrow> int" where
  \<comment> \<open>the nearest integer, a tie going to the even one\<close>
  "round_even q =
     (let f = \<lfloor>q\<rfloor>; d = q - of_int f
      in if d < 1 / 2 then f else if d > 1 / 2 then f + 1 else if even f then f else f + 1)"

definition ulp_exp :: "real \<Rightarrow> int" where
  \<comment> \<open>the exponent of the last place of a double of the size of \<open>x\<close>: 52 binary places
      below the leading one, and never below the subnormal spacing 2^-1074\<close>
  "ulp_exp x = max \<lfloor>log 2 \<bar>x\<bar>\<rfloor> (- 1022) - 52"

definition rnd :: "real \<Rightarrow> real" where
  \<comment> \<open>rounding to binary64, to nearest, ties to even\<close>
  "rnd x = (if x = 0 then 0
            else of_int (round_even (x / 2 powi ulp_exp x)) * 2 powi ulp_exp x)"

definition fadd :: "real \<Rightarrow> real \<Rightarrow> real" where
  "fadd x y = rnd (x + y)"

definition fsub :: "real \<Rightarrow> real \<Rightarrow> real" where
  "fsub x y = rnd (x - y)"

definition fmul :: "real \<Rightarrow> real \<Rightarrow> real" where
  "fmul x y = rnd (x * y)"

definition fdiv :: "real \<Rightarrow> real \<Rightarrow> real" where
  "fdiv x y = rnd (x / y)"

definition fsqrt :: "real \<Rightarrow> real" where
  "fsqrt x = rnd (sqrt x)"

definition to_number :: "real option \<Rightarrow> real" where
  \<comment> \<open>the coercion of an arithmetic operand: \<open>null\<close> counts as 0\<close>
  "to_number v = (case v of None \<Rightarrow> 0 | Some x \<Rightarrow> x)"

definition Math_round :: "real \<Rightarrow> int" where
  \<comment> \<open>\<open>Math.round\<close>: the nearest integer, a tie going up\<close>
  "Math_round x = \<lfloor>x + 1 / 2\<rfloor>"

definition nth_opt :: "'a list \<Rightarrow> nat \<Rightarrow> 'a option" where
  \<comment> \<open>\<open>arr[i]\<close> for \<open>i \<ge> 0\<close>: \<open>undefined\<close> out of range\<close>
  "nth_opt xs i = (if i < length xs then Some (xs ! i) else None)"

definition at_index :: "'a list \<Rightarrow> int \<Rightarrow> 'a option" where
  \<comment> \<open>\<open>arr[i]\<close> for an index that may be negative\<close>
  "at_index xs i = (if 0 \<le> i then nth_opt xs (nat i) else None)"

definition digit_char :: "nat \<Rightarrow> char" where
  "digit_char d = ''0123456789'' ! d"

function dec_nat :: "nat \<Rightarrow> string" where
  "dec_nat n = (if n < 10 then [digit_char n] else dec_nat (n div 10) @ [digit_char (n mod 10)])"
  by pat_completeness auto
termination
  by (relation "measure (\<lambda>n. n)") auto

declare dec_nat.simps [simp del]

definition round2 :: "real \<Rightarrow> real" where
  \<comment> \<open>\<open>Math.round(x*100)/100\<close>\<close>
  "round2 x = fdiv (real_of_int (Math_round (fmul x 100))) 100"

definition int_string :: "int \<Rightarrow> string" where
  \<comment> \<open>how a template literal prints an integer-valued number (below 1e21 in size)\<close>
  "int_string k = (if k < 0 then CHR ''-'' # dec_nat (nat (- k)) else dec_nat (nat k))"

section \<open>Configuration\<close>

definition BUFFER_MAX :: nat where "BUFFER_MAX = 3000"
definition DELTA_WINDOW :: nat where "DELTA_WINDOW = 30"
definition BZ_INTEGRAL_WINDOW :: nat where "BZ_INTEGRAL_WINDOW = 60"
definition FORECAST_STEPS :: nat where "FORECAST_STEPS = 6"
definition EWMA_ALPHA :: real where "EWMA_ALPHA = 25 / 100"

definition speed_high :: real where "speed_high = 500"
definition density_high :: real where "density_high = 10"
definition bz_south :: real where "bz_south = - 10"
definition deltaV_min :: real where "deltaV_min = 100"

section \<open>Samples, detections and the server state\<close>

record sample =
  timeISO :: string

record plasma_row = sample +
  density :: "real option"
  speed :: "real option"
  temp :: "real option"

record mag_row = sample +
  bx :: "real option"
  by_gsm :: "real option"
  bz :: "real option"

record zscore =
  zs_z :: real
  zs_mean :: real
  zs_sd :: real
  zs_cur :: real

record anomaly =
  an_speed :: bool
  an_bz :: bool
  an_density :: bool
  triggers :: "(string \<times> real) list"
  isAnomaly :: bool

record detection =
  det_id :: string
  det_timeISO :: string
  det_speed :: real
  det_density :: real
  det_bz :: real
  det_deltaV :: "int option"
  forecast_arrival_hours :: "int option"
  intensity :: string
  pdyn :: "real option"
  bz_integral :: real
  score :: real
  severity_label :: string
  severity_class :: string
  det_anomaly :: anomaly

record state =
  plasmaBuffer :: "plasma_row list"
  magBuffer :: "mag_row list"
  detections :: "detection list"

definition initial_state :: state where
  "initial_state = \<lparr>plasmaBuffer = [], magBuffer = [], detections = []\<rparr>"

section \<open>Helpers\<close>

definition forecastArrivalHours :: "real \<Rightarrow> int option" where
  "forecastArrivalHours speed_km_s =
     (if speed_km_s = 0 \<or> speed_km_s \<le> 0 then None
      else
        let AU_km = rnd (1495978707 / 10)
        in Some (Math_round (fdiv (fdiv AU_km speed_km_s) 3600)))"

definition intensityFromSpeed :: "real \<Rightarrow> string" where
  "intensityFromSpeed v =
     (if v > 3000 then ''Very Strong''
      else if v > 1500 then ''Strong''
      else if v > 1200 then ''Moderate''
      else if v > 400 then ''Mild''
      else ''Nominal'')"

definition clamp01 :: "real \<Rightarrow> real" where
  "clamp01 v = max 0 (min 1 v)"

definition computePdyn :: "real option \<Rightarrow> real option \<Rightarrow> real option" where
  "computePdyn dens spd =
     (case (dens, spd) of
        (Some n, Some v) \<Rightarrow> Some (fmul (fmul (rnd (16726 / 10 ^ 10)) n) (fmul v v))
      | _ \<Rightarrow> None)"

definition computeBzIntegral :: "mag_row list \<Rightarrow> nat \<Rightarrow> nat \<Rightarrow> real" where
  "computeBzIntegral magBuf idx windowSamples =
     (if magBuf = [] then 0
      else
        let start = nat (max 0 (int idx - int windowSamples + 1));
            total = foldl (\<lambda>acc i.
                       case nth_opt magBuf i of
                         None \<Rightarrow> acc
                       | Some m \<Rightarrow> (case bz m of None \<Rightarrow> acc | Some b \<Rightarrow> fadd acc (max 0 (- b))))
                     0 [start..<Suc idx]
        in round2 total)"

subsection \<open>The forecaster (simpleEwmaForecast)\<close>

fun ewma_loop :: "real \<Rightarrow> real \<Rightarrow> real list \<Rightarrow> real" where
  \<comment> \<open>\<open>for (i = 1; i < arr.length; i++) s = alpha*arr[i] + (1-alpha)*s\<close>, over the
      elements still to come\<close>
  "ewma_loop alpha s [] = s"
| "ewma_loop alpha s (x # xs) =
     ewma_loop alpha (fadd (fmul alpha x) (fmul (fsub 1 alpha) s)) xs"

fun push_loop :: "nat \<Rightarrow> nat \<Rightarrow> real \<Rightarrow> int list \<Rightarrow> int list" where
  \<comment> \<open>\<open>for (k = 0; k < steps; k++) out.push(Math.round(s))\<close>, with the number of rounds
      still to run as first argument\<close>
  "push_loop 0 k s out = out"
| "push_loop (Suc r) k s out = push_loop r (Suc k) s (out @ [Math_round s])"

definition simpleEwmaForecast :: "real list \<Rightarrow> real \<Rightarrow> nat \<Rightarrow> int list" where
  "simpleEwmaForecast arr alpha steps =
     (case arr of
        [] \<Rightarrow> []
      | a0 # rest \<Rightarrow> push_loop steps 0 (ewma_loop alpha a0 rest) [])"

subsection \<open>Score and severity (computeScoreAndSeverity)\<close>

definition or_zero :: "real option \<Rightarrow> real" where
  \<comment> \<open>\<open>(v||0)\<close>\<close>
  "or_zero v = (case v of None \<Rightarrow> 0 | Some x \<Rightarrow> x)"

definition computeScoreAndSeverity ::
  "real option \<Rightarrow> real option \<Rightarrow> real option \<Rightarrow> real option \<Rightarrow> real \<times> string \<times> string" where
  "computeScoreAndSeverity spd dens bzv deltaV =
     (let speedNorm = clamp01 (fdiv (fsub (or_zero spd) 400) (fsub 2000 400));
          densityNorm = clamp01 (fdiv (fsub (or_zero dens) 2) (fsub 50 2));
          bzNorm = (case bzv of None \<Rightarrow> 0
                    | Some b \<Rightarrow> if b < 0 then clamp01 (fdiv (- b) 50) else 0);
          deltaVNorm = (case deltaV of None \<Rightarrow> 0 | Some dv \<Rightarrow> clamp01 (fdiv dv 500));
          sc = max 0 (min 1
                 (fadd (fadd (fadd (fmul (rnd (35 / 100)) speedNorm)
                                   (fmul (rnd (30 / 100)) deltaVNorm))
                             (fmul (rnd (20 / 100)) densityNorm))
                       (fmul (rnd (15 / 100)) bzNorm)));
          label = (if sc > 75 / 100 then ''Strong''
                   else if sc > 5 / 10 then ''Moderate''
                   else if sc > 25 / 100 then ''Mild''
                   else ''Nominal'');
          cls = (if sc > rnd (6 / 10) then ''crit''
                 else if sc > rnd (3 / 10) then ''warn'' else ''info'')
      in (round2 sc, label, cls))"

subsection \<open>The anomaly check (detectAnomalyAt)\<close>

definition field_at :: "'a list \<Rightarrow> ('a \<Rightarrow> real option) \<Rightarrow> int \<Rightarrow> real option" where
  \<comment> \<open>\<open>arr[i]?.[field]\<close>\<close>
  "field_at arr field i = (case at_index arr i of None \<Rightarrow> None | Some r \<Rightarrow> field r)"

definition zCheck :: "int \<Rightarrow> int \<Rightarrow> 'a list \<Rightarrow> ('a \<Rightarrow> real option) \<Rightarrow> zscore option" where
  \<comment> \<open>the inner helper of detectAnomalyAt; \<open>s\<close> and \<open>idx\<close> are the variables it closes
      over; \<open>(b-mean)**2\<close> is taken as the rounded product of the difference with itself\<close>
  "zCheck s idx arr field =
     (let vals = foldl (\<lambda>vals i. case field_at arr field (int i) of
                                     None \<Rightarrow> vals
                                   | Some v \<Rightarrow> vals @ [v])
                   [] [nat s..<nat idx]
      in if length vals < 8 then None
         else
           let mean = fdiv (foldl (\<lambda>a b. fadd a b) 0 vals) (real (length vals));
               root = fsqrt (fdiv (foldl (\<lambda>a b. fadd a (fmul (fsub b mean) (fsub b mean)))
                                      0 vals)
                                  (real (length vals)));
               sd = (if root = 0 then rnd (1 / 100000) else root)
           in case field_at arr field idx of
                None \<Rightarrow> None
              | Some cur \<Rightarrow>
                  Some \<lparr>zs_z = fdiv (fsub cur mean) sd, zs_mean = mean, zs_sd = sd,
                        zs_cur = cur\<rparr>)"

definition z_triggered :: "zscore option \<Rightarrow> bool" where
  \<comment> \<open>\<open>zX && Math.abs(zX.z) > 3\<close>\<close>
  "z_triggered r = (case r of None \<Rightarrow> False | Some zr \<Rightarrow> \<bar>zs_z zr\<bar> > 3)"

definition trigger_entry :: "string \<Rightarrow> zscore option \<Rightarrow> (string \<times> real) list" where
  "trigger_entry metric r =
     (case r of
        None \<Rightarrow> []
      | Some zr \<Rightarrow>
          if \<bar>zs_z zr\<bar> > 3 then [(metric, round2 (zs_z zr))]
          else [])"

definition detectAnomalyAt :: "plasma_row list \<Rightarrow> mag_row list \<Rightarrow> int \<Rightarrow> anomaly" where
  "detectAnomalyAt plasma mag idx =
     (let s = max 0 (idx - 60);
          zSpeed = zCheck s idx plasma speed;
          zBz = zCheck s idx mag bz;
          zD = zCheck s idx plasma density;
          trg = trigger_entry ''speed'' zSpeed @ trigger_entry ''bz'' zBz
                @ trigger_entry ''density'' zD
      in \<lparr>an_speed = z_triggered zSpeed, an_bz = z_triggered zBz,
          an_density = z_triggered zD, triggers = trg, isAnomaly = (length trg > 0)\<rparr>)"

section \<open>The detector (runDetection)\<close>

definition deltaV_at :: "plasma_row list \<Rightarrow> nat \<Rightarrow> real \<Rightarrow> real option" where
  \<comment> \<open>\<open>let deltaV = null; const j = i - DELTA_WINDOW;
      if (j >= 0 && plasmaBuffer[j]) deltaV = speed - plasmaBuffer[j].speed;\<close>\<close>
  "deltaV_at buf i spd =
     (let j = int i - int DELTA_WINDOW
      in if j \<ge> 0 then
           (case at_index buf j of
              None \<Rightarrow> None
            | Some pj \<Rightarrow> Some (fsub spd (to_number (speed pj))))
         else None)"

definition isCME :: "real \<Rightarrow> real \<Rightarrow> real \<Rightarrow> real option \<Rightarrow> bool" where
  "isCME spd dens bzv deltaV =
     (let condHighSpeed = spd > speed_high;
          condDensity = dens > density_high;
          condSouthBz = bzv < bz_south;
          condDeltaV = (case deltaV of None \<Rightarrow> False | Some dv \<Rightarrow> dv > deltaV_min)
      in (condDeltaV \<and> (condHighSpeed \<or> condDensity))
         \<or> (condHighSpeed \<and> condDensity \<and> condSouthBz))"

definition detection_id :: "string \<Rightarrow> real \<Rightarrow> string" where
  \<comment> \<open>\<open>`${p.timeISO}_${Math.round(speed)}`\<close>\<close>
  "detection_id t spd = t @ ''_'' @ int_string (Math_round spd)"

definition make_detection ::
  "state \<Rightarrow> nat \<Rightarrow> plasma_row \<Rightarrow> real \<Rightarrow> real \<Rightarrow> real \<Rightarrow> real option \<Rightarrow> detection" where
  "make_detection st i p spd dens bzv deltaV =
     (let pd = computePdyn (Some dens) (Some spd);
          bzi = computeBzIntegral (magBuffer st) i BZ_INTEGRAL_WINDOW;
          sev = computeScoreAndSeverity (Some spd) (Some dens) (Some bzv) deltaV;
          an = detectAnomalyAt (plasmaBuffer st) (magBuffer st) (int i)
      in \<lparr>det_id = detection_id (timeISO p) spd,
          det_timeISO = timeISO p,
          det_speed = spd,
          det_density = dens,
          det_bz = bzv,
          det_deltaV = map_option Math_round deltaV,
          forecast_arrival_hours = forecastArrivalHours spd,
          intensity = intensityFromSpeed spd,
          pdyn = map_option round2 pd,
          bz_integral = bzi,
          score = fst sev,
          severity_label = fst (snd sev),
          severity_class = snd (snd sev),
          det_anomaly = an\<rparr>)"

definition has_id :: "string \<Rightarrow> detection list \<Rightarrow> bool" where
  \<comment> \<open>\<open>ds.some(d => d.id === id)\<close>\<close>
  "has_id ident ds = list_ex (\<lambda>d. det_id d = ident) ds"

definition sample_at :: "state \<Rightarrow> nat \<Rightarrow> (plasma_row \<times> real \<times> real \<times> real) option" where
  \<comment> \<open>the head of the loop body: \<open>p = plasmaBuffer[i]\<close>, \<open>m = magBuffer[i] || {}\<close>, and
      the three values read from them; None where the source says \<open>continue\<close>\<close>
  "sample_at st i =
     (case nth_opt (plasmaBuffer st) i of
        None \<Rightarrow> None
      | Some p \<Rightarrow>
          (case (speed p, density p, field_at (magBuffer st) bz (int i)) of
             (Some spd, Some dens, Some bzv) \<Rightarrow> Some (p, spd, dens, bzv)
           | _ \<Rightarrow> None))"

definition detect_step :: "state \<Rightarrow> detection list \<Rightarrow> nat \<Rightarrow> detection list" where
  \<comment> \<open>one round of the \<open>for\<close> loop of runDetection, at index \<open>i\<close>, returning the new
      value of \<open>newDetections\<close>\<close>
  "detect_step st newDetections i =
     (case sample_at st i of
        None \<Rightarrow> newDetections
      | Some (p, spd, dens, bzv) \<Rightarrow>
          (let deltaV = deltaV_at (plasmaBuffer st) i spd
           in if isCME spd dens bzv deltaV then
                (let ident = detection_id (timeISO p) spd
                 in if \<not> has_id ident (detections st) \<and> \<not> has_id ident newDetections
                    then newDetections @ [make_detection st i p spd dens bzv deltaV]
                    else newDetections)
              else newDetections))"

definition fires :: "state \<Rightarrow> nat \<Rightarrow> bool" where
  \<comment> \<open>the value of \<open>isCME\<close> in the round at index \<open>i\<close>; False when the round is skipped\<close>
  "fires st i =
     (case sample_at st i of
        None \<Rightarrow> False
      | Some (p, spd, dens, bzv) \<Rightarrow> isCME spd dens bzv (deltaV_at (plasmaBuffer st) i spd))"

definition id_at :: "state \<Rightarrow> nat \<Rightarrow> string" where
  \<comment> \<open>the \<open>id\<close> computed in the round at index \<open>i\<close>\<close>
  "id_at st i =
     (case sample_at st i of
        None \<Rightarrow> []
      | Some (p, spd, dens, bzv) \<Rightarrow> detection_id (timeISO p) spd)"

definition last_n :: "nat \<Rightarrow> 'a list \<Rightarrow> 'a list" where
  \<comment> \<open>\<open>xs.slice(-n)\<close> for a positive whole \<open>n\<close>\<close>
  "last_n n xs = drop (length xs - n) xs"

definition runDetection :: "state \<Rightarrow> detection list \<times> state" where
  \<comment> \<open>returns \<open>newDetections\<close> and the state it leaves; logging and the optional mirror
      write of each new detection touch nothing of the state\<close>
  "runDetection st =
     (let newDetections = foldl (detect_step st) [] [0..<length (plasmaBuffer st)]
      in if newDetections \<noteq> []
         then (newDetections, st\<lparr>detections := last_n 100 (detections st @ newDetections)\<rparr>)
         else (newDetections, st))"


section \<open>Ingestion (the append loop of pollNOAA)\<close>

definition null_mag :: "string \<Rightarrow> mag_row" where
  \<comment> \<open>\<open>{ bx: null, by: null, bz: null, timeISO: p.timeISO }\<close>\<close>
  "null_mag t = \<lparr>timeISO = t, bx = None, by_gsm = None, bz = None\<rparr>"

definition magByTime :: "mag_row list \<Rightarrow> (string \<rightharpoonup> mag_row)" where
  \<comment> \<open>\<open>new Map(magRows.map(m => [m.timeISO, m]))\<close>: a later row replaces an earlier one
      of the same time\<close>
  "magByTime magRows = foldl (\<lambda>tbl m. tbl(timeISO m \<mapsto> m)) Map.empty magRows"

definition match_mag :: "(string \<rightharpoonup> mag_row) \<Rightarrow> plasma_row \<Rightarrow> mag_row" where
  \<comment> \<open>\<open>magByTime.get(p.timeISO) || {...nulls}\<close>\<close>
  "match_mag tbl p = (case tbl (timeISO p) of None \<Rightarrow> null_mag (timeISO p) | Some m \<Rightarrow> m)"

definition push_pair :: "state \<Rightarrow> plasma_row \<Rightarrow> mag_row \<Rightarrow> state" where
  \<comment> \<open>the body of the loop: two pushes, then a \<open>shift()\<close> of each buffer that has grown
      past BUFFER_MAX\<close>
  "push_pair st p m =
     (let pb = plasmaBuffer st @ [p];
          mb = magBuffer st @ [m];
          pb' = (if length pb > BUFFER_MAX then tl pb else pb);
          mb' = (if length mb > BUFFER_MAX then tl mb else mb)
      in st\<lparr>plasmaBuffer := pb', magBuffer := mb'\<rparr>)"

definition append_batch :: "state \<Rightarrow> plasma_row list \<Rightarrow> mag_row list \<Rightarrow> state" where
  \<comment> \<open>lines 214 to 222 of pollNOAA, on the parsed rows\<close>
  "append_batch st plasmaRows magRows =
     (let tbl = magByTime magRows
      in foldl (\<lambda>s p. push_pair s p (match_mag tbl p)) st plasmaRows)"

definition pollNOAA :: "state \<Rightarrow> plasma_row list \<Rightarrow> mag_row list \<Rightarrow> state" where
  \<comment> \<open>a poll whose two fetches succeeded: append, then scan\<close>
  "pollNOAA st plasmaRows magRows = snd (runDetection (append_batch st plasmaRows magRows))"

definition run_polls :: "(plasma_row list \<times> mag_row list) list \<Rightarrow> state" where
  \<comment> \<open>the state after a sequence of successful polls from process start\<close>
  "run_polls batches = foldl (\<lambda>s (ps, ms). pollNOAA s ps ms) initial_state batches"

definition buffer_pairs :: "state \<Rightarrow> (plasma_row \<times> mag_row) list" where
  "buffer_pairs st = zip (plasmaBuffer st) (magBuffer st)"

section \<open>Endpoints\<close>

definition cme_detect :: "state \<Rightarrow> (detection list \<times> detection list) \<times> state" where
  \<comment> \<open>\<open>res.json({ new: runDetection(), all: detections })\<close>\<close>
  "cme_detect st =
     (let r = runDetection st in ((fst r, detections (snd r)), snd r))"

datatype jsnum = NaN | Fin real | PosInf | NegInf

definition or_default :: "jsnum \<Rightarrow> real \<Rightarrow> jsnum" where
  \<comment> \<open>\<open>v || d\<close> on numbers: NaN and 0 are falsy\<close>
  "or_default v d = (case v of NaN \<Rightarrow> Fin d | Fin r \<Rightarrow> (if r = 0 then Fin d else Fin r)
                     | PosInf \<Rightarrow> PosInf | NegInf \<Rightarrow> NegInf)"

definition Math_min :: "real \<Rightarrow> jsnum \<Rightarrow> jsnum" where
  \<comment> \<open>\<open>Math.min(c, v)\<close> for a finite \<open>c\<close>\<close>
  "Math_min c v = (case v of NaN \<Rightarrow> NaN | Fin r \<Rightarrow> Fin (min c r)
                   | PosInf \<Rightarrow> Fin c | NegInf \<Rightarrow> NegInf)"

definition export_limit :: "jsnum \<Rightarrow> jsnum" where
  \<comment> \<open>\<open>Math.min(50000, Number(req.query.limit) || 1000)\<close>; the argument is the value of
      \<open>Number(req.query.limit)\<close>\<close>
  "export_limit q = Math_min 50000 (or_default q 1000)"

definition trunc :: "real \<Rightarrow> int" where
  \<comment> \<open>rounding towards zero, as an array index argument is read\<close>
  "trunc r = (if r \<ge> 0 then \<lfloor>r\<rfloor> else \<lceil>r\<rceil>)"

definition slice_from :: "'a list \<Rightarrow> int \<Rightarrow> 'a list" where
  \<comment> \<open>\<open>arr.slice(start)\<close> for a whole \<open>start\<close>: a negative one counts from the end\<close>
  "slice_from xs start =
     (let len = int (length xs);
          k = (if start < 0 then max (len + start) 0 else min start len)
      in drop (nat k) xs)"

definition slice_neg :: "'a list \<Rightarrow> jsnum \<Rightarrow> 'a list" where
  \<comment> \<open>\<open>arr.slice(-limit)\<close>\<close>
  "slice_neg xs limit =
     (case limit of
        NaN \<Rightarrow> xs
      | Fin r \<Rightarrow> slice_from xs (trunc (- r))
      | PosInf \<Rightarrow> xs
      | NegInf \<Rightarrow> [])"

definition export_rows :: "(jsnum \<Rightarrow> detection list) option \<Rightarrow> jsnum \<Rightarrow> state \<Rightarrow> detection list" where
  \<comment> \<open>the rows of the JSON export; the first argument is the store's query
      \<open>find({}).sort({timeISO: -1}).limit(limit).toArray()\<close>, None when \<open>mongoDb\<close> is null;
      without a store the CSV export writes the same rows\<close>
  "export_rows store q st =
     (let limit = export_limit q;
          rows = (case store of None \<Rightarrow> [] | Some query \<Rightarrow> query limit)
      in if rows = [] then slice_neg (detections st) limit else rows)"


section \<open>Concrete inputs\<close>

definition storm_row :: plasma_row where
  "storm_row = \<lparr>timeISO = ''2024-05-10 17:05:00.000'', density = Some 12, speed = Some 600,
                 temp = Some 250000\<rparr>"

definition storm_mag :: mag_row where
  "storm_mag = \<lparr>timeISO = ''2024-05-10 17:05:00.000'', bx = Some 3, by_gsm = Some (- 4),
                 bz = Some (- 12)\<rparr>"

definition storm_state :: state where
  \<comment> \<open>one sample, nothing to look back to\<close>
  "storm_state = \<lparr>plasmaBuffer = [storm_row], magBuffer = [storm_mag], detections = []\<rparr>"

definition quiet_row :: plasma_row where
  "quiet_row = \<lparr>timeISO = ''2024-05-10 16:00:00.000'', density = Some 3, speed = Some 300,
                 temp = None\<rparr>"

definition quiet_mag :: mag_row where
  "quiet_mag = \<lparr>timeISO = ''2024-05-10 16:00:00.000'', bx = None, by_gsm = None,
                 bz = Some (- 2)\<rparr>"

definition jump_row :: plasma_row where
  "jump_row = \<lparr>timeISO = ''2024-05-10 16:30:00.000'', density = Some 3, speed = Some 450,
                temp = None\<rparr>"

definition jump_mag :: mag_row where
  "jump_mag = \<lparr>timeISO = ''2024-05-10 16:30:00.000'', bx = None, by_gsm = None,
                bz = Some (- 2)\<rparr>"

definition jump_state :: state where
  \<comment> \<open>thirty samples at 300 km/s, then one at 450 km/s: a jump of 150 over the window\<close>
  "jump_state = \<lparr>plasmaBuffer = replicate 30 quiet_row @ [jump_row],
                  magBuffer = replicate 30 quiet_mag @ [jump_mag], detections = []\<rparr>"

definition gap_row :: plasma_row where
  \<comment> \<open>a row whose speed did not parse\<close>
  "gap_row = \<lparr>timeISO = ''2024-05-10 16:00:00.000'', density = Some 3, speed = None,
               temp = None\<rparr>"

definition dense_row :: plasma_row where
  "dense_row = \<lparr>timeISO = ''2024-05-10 16:30:00.000'', density = Some 12, speed = Some 450,
                 temp = None\<rparr>"

definition gap_state :: state where
  \<comment> \<open>the sample thirty places before the last one has a null speed\<close>
  "gap_state = \<lparr>plasmaBuffer = gap_row # replicate 29 quiet_row @ [dense_row],
                 magBuffer = replicate 30 quiet_mag @ [jump_mag], detections = []\<rparr>"

definition shock_state :: state where
  \<comment> \<open>thirty samples at 300 km/s, then one at 450 km/s with density 12\<close>
  "shock_state = \<lparr>plasmaBuffer = replicate 30 quiet_row @ [dense_row],
                   magBuffer = replicate 30 quiet_mag @ [jump_mag], detections = []\<rparr>"

definition crowd_row :: "nat \<Rightarrow> plasma_row" where
  "crowd_row k = \<lparr>timeISO = replicate k (CHR ''m''), density = Some 12, speed = Some 600,
                   temp = None\<rparr>"

definition crowd_mag :: "nat \<Rightarrow> mag_row" where
  "crowd_mag k = \<lparr>timeISO = replicate k (CHR ''m''), bx = None, by_gsm = None,
                   bz = Some (- 12)\<rparr>"

definition crowded_state :: state where
  \<comment> \<open>101 samples of distinct times, each of which satisfies the rule\<close>
  "crowded_state = \<lparr>plasmaBuffer = map crowd_row [0..<101], magBuffer = map crowd_mag [0..<101],
                     detections = []\<rparr>"




definition ripple_bz :: "real list" where
  \<comment> \<open>eight values of size 2^-20 with alternating sign, then 2^-16\<close>
  "ripple_bz = [1 / 1048576, - 1 / 1048576, 1 / 1048576, - 1 / 1048576,
                1 / 1048576, - 1 / 1048576, 1 / 1048576, - 1 / 1048576, 1 / 65536]"

definition ripple_mag :: "mag_row list" where
  "ripple_mag = map (\<lambda>b. \<lparr>timeISO = ''2024-05-10 16:00:00.000'', bx = None, by_gsm = None,
                             bz = Some b\<rparr>) ripple_bz"

definition ripple_plasma :: "plasma_row list" where
  "ripple_plasma = replicate 9 quiet_row"

definition hum_speeds :: "real list" where
  \<comment> \<open>eight times the literal 300.1, then the literal 300.10002\<close>
  "hum_speeds = [rnd (3001 / 10), rnd (3001 / 10), rnd (3001 / 10), rnd (3001 / 10),
                 rnd (3001 / 10), rnd (3001 / 10), rnd (3001 / 10), rnd (3001 / 10),
                 rnd (30010002 / 100000)]"

definition hum_plasma :: "plasma_row list" where
  "hum_plasma = map (\<lambda>v. \<lparr>timeISO = ''2024-05-10 16:00:00.000'', density = Some 3,
                             speed = Some v, temp = None\<rparr>) hum_speeds"

section \<open>The velocity jump and the rule, in the words of the specification\<close>

definition deltaV_spec :: "plasma_row list \<Rightarrow> nat \<Rightarrow> real option" where
  \<comment> \<open>\<open>speed[i] - speed[i-30]\<close> when index \<open>i-30\<close> exists and has a non-null speed, null
      otherwise; the difference is the one doubles give\<close>
  "deltaV_spec buf i =
     (if 30 \<le> i
      then (case (nth_opt buf i, nth_opt buf (i - 30)) of
              (Some p, Some pj) \<Rightarrow>
                (case (speed p, speed pj) of
                   (Some v, Some u) \<Rightarrow> Some (fsub v u)
                 | _ \<Rightarrow> None)
            | _ \<Rightarrow> None)
      else None)"

definition rule_spec :: "real \<Rightarrow> real \<Rightarrow> real \<Rightarrow> real option \<Rightarrow> bool" where
  \<comment> \<open>(shock and (highSpeed or highDensity)) or (highSpeed and highDensity and southBz)\<close>
  "rule_spec spd dens bzv deltaV =
     (let highSpeed = spd > 500;
          highDensity = dens > 10;
          southBz = bzv < - 10;
          shock = (case deltaV of None \<Rightarrow> False | Some dv \<Rightarrow> dv > 100)
      in (shock \<and> (highSpeed \<or> highDensity)) \<or> (highSpeed \<and> highDensity \<and> southBz))"

section \<open>The window of the anomaly check, in the words of the specification\<close>

definition window_vals :: "'a list \<Rightarrow> ('a \<Rightarrow> real option) \<Rightarrow> int \<Rightarrow> real list" where
  \<comment> \<open>the non-null values of the metric at the indices from \<open>max(0, idx - 60)\<close> up to,
      and without, \<open>idx\<close>\<close>
  "window_vals arr field idx =
     List.map_filter (\<lambda>j. field_at arr field (int j)) [nat (max 0 (idx - 60))..<nat idx]"

section \<open>Rounding leaves a double as it is\<close>

lemma round_even_of_int: "round_even (of_int k) = k"
  by (simp add: round_even_def)

lemma ulp_exp_le:
  assumes "m \<noteq> 0" "\<bar>m\<bar> < 2 ^ 53" "- 1074 \<le> e"
  shows "ulp_exp (of_int m * 2 powi e) \<le> e"
proof -
  let ?x = "real_of_int m * 2 powi e"
  have pos: "0 < \<bar>?x\<bar>"
    using assms(1) by simp
  have "\<bar>?x\<bar> = \<bar>real_of_int m\<bar> * 2 powi e"
    by (simp add: abs_mult)
  also have "\<dots> < 2 ^ 53 * 2 powi e"
  proof -
    have "\<bar>real_of_int m\<bar> < 2 ^ 53"
      using assms(2) by (metis of_int_abs of_int_less_numeral_power_cancel_iff)
    then show ?thesis by simp
  qed
  also have "\<dots> = 2 powi (53 + e)"
    by (simp add: power_int_add)
  finally have lt: "\<bar>?x\<bar> < 2 powi (53 + e)" .
  have "log 2 \<bar>?x\<bar> < log 2 (2 powi (53 + e))"
    using lt pos by simp
  also have "log 2 (2 powi (53 + e)) = of_int (53 + e)"
    using powr_real_of_int' [of 2 "53 + e"] log_powr_cancel [of 2 "real_of_int (53 + e)"]
    by simp
  finally have "\<lfloor>log 2 \<bar>?x\<bar>\<rfloor> < 53 + e"
    by (simp add: floor_less_iff)
  then show ?thesis
    using assms(3) by (simp add: ulp_exp_def)
qed

lemma rnd_exact:
  assumes "\<bar>m\<bar> < 2 ^ 53" "- 1074 \<le> e"
  shows "rnd (of_int m * 2 powi e) = of_int m * 2 powi e"
proof (cases "m = 0")
  case True
  then show ?thesis by (simp add: rnd_def)
next
  case False
  let ?x = "real_of_int m * 2 powi e"
  define E where "E = ulp_exp ?x"
  have le: "E \<le> e"
    unfolding E_def using False assms by (rule ulp_exp_le)
  have "?x / 2 powi E = of_int m * 2 powi (e - E)"
    by (simp add: power_int_diff)
  also have "\<dots> = of_int m * 2 ^ nat (e - E)"
    using le by (simp add: power_int_def)
  also have "\<dots> = of_int (m * 2 ^ nat (e - E))"
    by simp
  finally have q: "?x / 2 powi E = of_int (m * 2 ^ nat (e - E))" .
  have "rnd ?x = of_int (round_even (?x / 2 powi E)) * 2 powi E"
    using False by (simp add: rnd_def E_def)
  also have "\<dots> = of_int (m * 2 ^ nat (e - E)) * 2 powi E"
    by (simp only: q round_even_of_int)
  also have "\<dots> = ?x / 2 powi E * 2 powi E"
    by (simp only: q)
  also have "\<dots> = ?x"
    by simp
  finally show ?thesis .
qed

lemma rnd_int: "\<bar>k\<bar> < 2 ^ 53 \<Longrightarrow> rnd (of_int k) = of_int k"
  using rnd_exact [of k 0] by simp

lemma rnd_fixed:
  "\<bar>m\<bar> < 2 ^ 53 \<Longrightarrow> k \<le> 1074 \<Longrightarrow> rnd (of_int m / 2 ^ k) = of_int m / 2 ^ k"
  using rnd_exact [of m "- int k"] by (simp add: power_int_minus field_simps)

lemma rnd_whole:
  "rnd 0 = 0" "rnd 16 = 16" "rnd 150 = 150" "rnd 450 = 450" "rnd 5 = 5"
  using rnd_int [of 0] rnd_int [of 16] rnd_int [of 150] rnd_int [of 450] rnd_int [of 5]
  by simp_all

lemma rnd_forecast:
  "rnd (3 / 4) = 3 / 4" "rnd (15 / 2) = 15 / 2" "rnd (25 / 2) = 25 / 2"
  "rnd (75 / 8) = 75 / 8" "rnd (135 / 8) = 135 / 8"
  using rnd_fixed [of 3 2] rnd_fixed [of 15 1] rnd_fixed [of 25 1] rnd_fixed [of 75 3]
    rnd_fixed [of 135 3]
  by simp_all

text \<open>
  Where the exact result is not a double, the binade of the result fixes the last place,
  and the quotient by it is rounded to the nearest integer.
\<close>

lemma ulp_exp_binade:
  assumes "2 powi k \<le> \<bar>x\<bar>" "\<bar>x\<bar> < 2 powi (k + 1)" "- 1022 \<le> k"
  shows "ulp_exp x = k - 52"
proof -
  have pos: "0 < \<bar>x\<bar>"
    using assms(1) by (smt (verit) power_int_eq_0_iff zero_less_power_int)
  have p: "2 powi j = 2 powr real_of_int j" for j :: int
    using powr_real_of_int' [of 2 j] by simp
  have "real_of_int k \<le> log 2 \<bar>x\<bar>"
    using assms(1) pos by (simp add: p le_log_iff)
  moreover have "log 2 \<bar>x\<bar> < real_of_int k + 1"
    using assms(2) pos by (simp add: p log_less_iff)
  ultimately have "\<lfloor>log 2 \<bar>x\<bar>\<rfloor> = k"
    by (intro floor_unique) simp_all
  then show ?thesis
    using assms(3) by (simp add: ulp_exp_def)
qed

lemma rnd_binade:
  assumes "2 powi k \<le> \<bar>x\<bar>" "\<bar>x\<bar> < 2 powi (k + 1)" "- 1022 \<le> k"
  shows "rnd x = of_int (round_even (x / 2 powi (k - 52))) * 2 powi (k - 52)"
proof -
  have "x \<noteq> 0"
    using assms(1) by (smt (verit) power_int_eq_0_iff zero_less_power_int abs_zero)
  then show ?thesis
    by (simp only: rnd_def ulp_exp_binade [OF assms] if_False)
qed

lemma round_even_below: "0 \<le> d \<Longrightarrow> d < 1 / 2 \<Longrightarrow> round_even (of_int n + d) = n"
proof -
  assume d: "0 \<le> d" "d < 1 / 2"
  then have "\<lfloor>real_of_int n + d\<rfloor> = n"
    by (intro floor_unique) simp_all
  then show ?thesis
    using d unfolding round_even_def Let_def by simp
qed

lemma round_even_tie: "round_even (of_int n + 1 / 2) = (if even n then n else n + 1)"
proof -
  have "\<lfloor>real_of_int n + 1 / 2\<rfloor> = n"
    by (intro floor_unique) simp_all
  then show ?thesis
    unfolding round_even_def Let_def by simp
qed

lemma round_even_above: "1 / 2 < d \<Longrightarrow> d < 1 \<Longrightarrow> round_even (of_int n + d) = n + 1"
proof -
  assume d: "1 / 2 < d" "d < 1"
  then have "\<lfloor>real_of_int n + d\<rfloor> = n"
    by (intro floor_unique) simp_all
  then show ?thesis
    using d unfolding round_even_def Let_def by simp
qed

text \<open>
  Two results that are not the exact ones. The difference of the doubles 100.5 and
  0.49999999999999994 (which is 1/2 - 2^-54) is the double 100, not a number above 100. The
  literals 300.2 and 297.4 are the doubles nearest to them.
\<close>

lemma fsub_below_ulp:
  "fsub (201 / 2) (1 / 2 - 1 / 2 ^ 54) = 100"
proof -
  define x :: real where "x = 100 + 1 / 2 ^ 54"
  have ue: "ulp_exp x = - 46"
    using ulp_exp_binade [of 6 x] by (simp add: x_def)
  have q: "x / 2 powi (- 46) = 7036874417766400 + 1 / 256"
    by (simp add: x_def power_int_minus field_simps)
  have fl: "\<lfloor>(7036874417766400::real) + 1 / 256\<rfloor> = 7036874417766400"
    by (intro floor_unique) simp_all
  have "round_even (7036874417766400 + 1 / 256) = 7036874417766400"
    unfolding round_even_def Let_def fl by simp
  then have r: "round_even (x / 2 powi (- 46)) = 7036874417766400"
    by (simp only: q)
  have "x \<noteq> 0"
    by (simp add: x_def add_pos_pos)
  then have "rnd x = of_int (round_even (x / 2 powi (- 46))) * 2 powi (- 46)"
    by (simp only: rnd_def ue if_False)
  then have "rnd x = 100"
    by (simp only: r) (simp add: power_int_minus)
  then show ?thesis
    by (simp add: fsub_def x_def)
qed


lemma rnd_300_2: "rnd (3002 / 10) = 5281174250533683 / 17592186044416"
proof -
  have "(3002 / 10 :: real) / 2 powi (8 - 52) = of_int 5281174250533683 + 1 / 5"
    by (simp add: power_int_minus)
  then have "round_even ((3002 / 10) / 2 powi (8 - 52)) = 5281174250533683"
    by (simp only: round_even_below)
  then show ?thesis
    using rnd_binade [of 8 "3002 / 10"] by (simp add: power_int_minus)
qed

lemma rnd_297_4: "rnd (2974 / 10) = 5231916129609318 / 17592186044416"
proof -
  have "(2974 / 10 :: real) / 2 powi (8 - 52) = of_int 5231916129609318 + 2 / 5"
    by (simp add: power_int_minus)
  then have "round_even ((2974 / 10) / 2 powi (8 - 52)) = 5231916129609318"
    by (simp only: round_even_below)
  then show ?thesis
    using rnd_binade [of 8 "2974 / 10"] by (simp add: power_int_minus)
qed

section \<open>Lemmas about one round and about the whole scan\<close>

lemma step_skip: "\<not> fires st i \<Longrightarrow> detect_step st new i = new"
  by (auto simp: fires_def detect_step_def split: option.splits)

lemma step_dup:
  "has_id (id_at st i) (detections st) \<or> has_id (id_at st i) new \<Longrightarrow> detect_step st new i = new"
  by (auto simp: id_at_def detect_step_def Let_def split: option.splits)

lemma det_id_make [simp]:
  "det_id (make_detection st i p spd dens bzv dv) = detection_id (timeISO p) spd"
  by (simp add: make_detection_def Let_def)

lemma step_push:
  "fires st i \<Longrightarrow> \<not> has_id (id_at st i) (detections st) \<Longrightarrow> \<not> has_id (id_at st i) new \<Longrightarrow>
   \<exists>d. det_id d = id_at st i \<and> detect_step st new i = new @ [d]"
  by (auto simp: fires_def id_at_def detect_step_def Let_def split: option.splits)

lemma has_id_iff: "has_id ident ds \<longleftrightarrow> ident \<in> det_id ` set ds"
  by (auto simp: has_id_def list_ex_iff)


lemma scan_none:
  "(\<And>i. i \<in> set idxs \<Longrightarrow> fires st i \<Longrightarrow> has_id (id_at st i) (detections st)) \<Longrightarrow> foldl (detect_step st) new idxs = new"
proof (induction idxs arbitrary: new)
  case Nil
  then show ?case by simp
next
  case (Cons i idxs)
  have "detect_step st new i = new"
  proof (cases "fires st i")
    case True
    then show ?thesis using Cons.prems[of i] step_dup by simp
  next
    case False
    then show ?thesis by (rule step_skip)
  qed
  then show ?case using Cons by simp
qed



lemma scan_all_fresh:
  "(\<And>i. i \<in> set idxs \<Longrightarrow> fires st i) \<Longrightarrow> distinct (map (id_at st) idxs) \<Longrightarrow>
   (\<And>i. i \<in> set idxs \<Longrightarrow> \<not> has_id (id_at st i) (detections st)) \<Longrightarrow>
   (\<And>i. i \<in> set idxs \<Longrightarrow> \<not> has_id (id_at st i) new) \<Longrightarrow>
   map det_id (foldl (detect_step st) new idxs) = map det_id new @ map (id_at st) idxs"
proof (induction idxs arbitrary: new)
  case Nil
  then show ?case by simp
next
  case (Cons j idxs)
  obtain d where d: "det_id d = id_at st j" "detect_step st new j = new @ [d]"
    using step_push[of st j new] Cons.prems by auto
  have "map det_id (foldl (detect_step st) (new @ [d]) idxs) = map det_id (new @ [d]) @ map (id_at st) idxs"
  proof (rule Cons.IH)
    fix i assume i: "i \<in> set idxs"
    have "id_at st j \<notin> id_at st ` set idxs"
      using Cons.prems(2) by simp
    with i have "id_at st i \<noteq> id_at st j"
      by (metis imageI)
    moreover have "\<not> has_id (id_at st i) new"
      using Cons.prems(4) i by simp
    ultimately show "\<not> has_id (id_at st i) (new @ [d])"
      using d(1) by (auto simp: has_id_iff)
  qed (use Cons.prems in auto)
  then show ?case using d by simp
qed

lemmas rule_consts = speed_high_def density_high_def bz_south_def deltaV_min_def




section \<open>The scan leaves the buffers alone (claim C10)\<close>

text \<open>
  Claim C10. Running the scan, directly or through the detect endpoint, returns a state
  whose plasma buffer and magnetic-field buffer are those it started from; the state it
  returns differs from the one it was given in the detection log at most.
\<close>

theorem runDetection_keeps_buffers:
  "plasmaBuffer (snd (runDetection st)) = plasmaBuffer st
   \<and> magBuffer (snd (runDetection st)) = magBuffer st
   \<and> snd (runDetection st) = st\<lparr>detections := detections (snd (runDetection st))\<rparr>
   \<and> plasmaBuffer (snd (cme_detect st)) = plasmaBuffer st
   \<and> magBuffer (snd (cme_detect st)) = magBuffer st"
  by (simp add: runDetection_def cme_detect_def Let_def)

section \<open>The forecaster (claim C6)\<close>
lemma ewma_loop_foldl:
  "ewma_loop alpha s xs = foldl (\<lambda>s x. fadd (fmul alpha x) (fmul (fsub 1 alpha) s)) s xs"
  by (induction xs arbitrary: s) simp_all

lemma push_loop_replicate:
  "push_loop r k s out = out @ replicate r (Math_round s)"
  by (induction r arbitrary: k out) (simp_all add: replicate_app_Cons_same)

lemma forecast_steps: "fsub 1 (1 / 4) = 3 / 4"
  "fadd (fmul (1 / 4) 20) (fmul (3 / 4) 10) = 25 / 2"
  "fadd (fmul (1 / 4) 30) (fmul (3 / 4) (25 / 2)) = 135 / 8"
  by (simp_all add: fsub_def fadd_def fmul_def rnd_whole rnd_forecast)

text \<open>
  Claim C6. On a non-empty sequence the forecaster starts from the first element, folds the
  others with s := alpha * x + (1 - alpha) * s, each product, difference and sum being the
  one doubles give, and returns \<open>steps\<close> copies of the rounded result; on the empty
  sequence it returns the empty forecast; on [10, 20, 30] with alpha 0.25 and three steps
  the three values are the same (17).
\<close>

theorem ewma_forecast_constant:
  "simpleEwmaForecast [] alpha steps = []
   \<and> simpleEwmaForecast (a # rest) alpha steps
       = replicate steps
           (Math_round (foldl (\<lambda>s x. fadd (fmul alpha x) (fmul (fsub 1 alpha) s)) a rest))
   \<and> simpleEwmaForecast [10, 20, 30] (25 / 100) 3 = [17, 17, 17]"
proof -
  have "Math_round (135 / 8) = 17"
    by (simp add: Math_round_def)
  then show ?thesis
    by (simp add: simpleEwmaForecast_def ewma_loop_foldl push_loop_replicate numeral_3_eq_3
        forecast_steps)
qed

text \<open>
  The forecast of the doubles 300.2 and 297.4 with alpha 0.25: the fold is 299.5 in
  doubles (two ties, both rounded to the even significand), and every forecast value is 300.
\<close>

lemma forecast_one_decimal:
  "simpleEwmaForecast [rnd (3002 / 10), rnd (2974 / 10)] (1 / 4) 6 = replicate 6 300"
proof -
  define A :: real where "A = 5281174250533683 / 17592186044416"
  define B :: real where "B = 5231916129609318 / 17592186044416"
  define P1 :: real where "P1 = 5231916129609318 / 70368744177664"
  define P2 :: real where "P2 = 7921761375800524 / 35184372088832"
  have rA: "rnd (3002 / 10) = A" and rB: "rnd (2974 / 10) = B"
    by (simp_all only: rnd_300_2 rnd_297_4 A_def B_def)
  have a: "fsub 1 (1 / 4) = 3 / 4"
    by (rule forecast_steps(1))
  have p1: "fmul (1 / 4) B = P1"
    using rnd_fixed [of 5231916129609318 46] by (simp add: fmul_def B_def P1_def)
  have "(15843522751601049 / 70368744177664 :: real) / 2 powi (7 - 52)
          = of_int 7921761375800524 + 1 / 2"
    by (simp add: power_int_minus)
  then have "round_even ((15843522751601049 / 70368744177664) / 2 powi (7 - 52))
               = 7921761375800524"
    by (simp only: round_even_tie) simp
  then have "rnd (15843522751601049 / 70368744177664) = 7921761375800524 / 35184372088832"
    using rnd_binade [of 7 "15843522751601049 / 70368744177664"]
    by (simp add: power_int_minus)
  then have p2: "fmul (3 / 4) A = P2"
    by (simp add: fmul_def A_def P2_def)
  have "(21075438881210366 / 70368744177664 :: real) / 2 powi (8 - 52)
          = of_int 5268859720302591 + 1 / 2"
    by (simp add: power_int_minus)
  then have "round_even ((21075438881210366 / 70368744177664) / 2 powi (8 - 52))
               = 5268859720302592"
    by (simp only: round_even_tie) simp
  then have "rnd (21075438881210366 / 70368744177664) = 599 / 2"
    using rnd_binade [of 8 "21075438881210366 / 70368744177664"]
    by (simp add: power_int_minus)
  then have s: "fadd P1 P2 = 599 / 2"
    by (simp add: fadd_def P1_def P2_def)
  have r: "Math_round (599 / 2) = 300"
    by (simp add: Math_round_def)
  have "simpleEwmaForecast [A, B] (1 / 4) 6 = replicate 6 300"
    by (simp add: simpleEwmaForecast_def ewma_loop_foldl push_loop_replicate a p1 p2 s r)
  then show ?thesis
    by (simp only: rA rB)
qed

section \<open>More lemmas about the scan\<close>

lemma int_string_450: "int_string 450 = ''450''"
  by (simp add: int_string_def dec_nat.simps digit_char_def)

lemma scan_runDetection:
  "fst (runDetection st) = foldl (detect_step st) [] [0..<length (plasmaBuffer st)]"
  by (simp add: runDetection_def Let_def)

lemma detections_runDetection:
  "detections (snd (runDetection st)) =
     (if fst (runDetection st) = [] then detections st
      else last_n 100 (detections st @ fst (runDetection st)))"
  by (simp add: runDetection_def Let_def)

lemma buffers_runDetection:
  "plasmaBuffer (snd (runDetection st)) = plasmaBuffer st"
  "magBuffer (snd (runDetection st)) = magBuffer st"
  by (simp_all add: runDetection_def Let_def)

lemma deltaV_at_early: "i < 30 \<Longrightarrow> deltaV_at buf i spd = None"
  by (simp add: deltaV_at_def DELTA_WINDOW_def)

lemma deltaV_at_lookback:
  "30 \<le> i \<Longrightarrow> i - 30 < length buf \<Longrightarrow>
   deltaV_at buf i spd = Some (fsub spd (to_number (speed (buf ! (i - 30)))))"
  by (simp add: deltaV_at_def DELTA_WINDOW_def at_index_def nth_opt_def nat_diff_distrib' Let_def)

lemma quiet_mag_at:
  "i < 30 \<Longrightarrow> field_at (replicate 30 quiet_mag @ [jump_mag]) bz (int i) = Some (- 2)"
  by (simp add: field_at_def at_index_def nth_opt_def nth_append quiet_mag_def)

lemma not_fires_slow_thin:
  assumes "sample_at st i = Some (p, spd, dens, bzv)" "spd \<le> 500" "dens \<le> 10"
  shows "\<not> fires st i"
  using assms by (simp add: fires_def isCME_def rule_consts)

section \<open>A jump of 150 km/s at low speed and density (claim C7)\<close>

lemma jump_quiet_rounds: "i < 30 \<Longrightarrow> \<not> fires jump_state i"
proof -
  assume i: "i < 30"
  then have "sample_at jump_state i = Some (quiet_row, 300, 3, - 2)"
    using quiet_mag_at [OF i]
    by (simp add: sample_at_def jump_state_def nth_opt_def nth_append quiet_row_def)
  then show ?thesis
    by (rule not_fires_slow_thin) simp_all
qed

lemma jump_sample: "sample_at jump_state 30 = Some (jump_row, 450, 3, - 2)"
  by (simp add: sample_at_def jump_state_def nth_opt_def nth_append jump_row_def
      jump_mag_def field_at_def at_index_def)

lemma jump_deltaV: "deltaV_at (plasmaBuffer jump_state) 30 450 = Some 150"
  by (simp add: deltaV_at_lookback jump_state_def nth_append quiet_row_def to_number_def
      fsub_def rnd_whole)

lemma jump_last_round: "\<not> fires jump_state 30"
  by (simp add: fires_def jump_sample jump_deltaV isCME_def rule_consts)

text \<open>
  Claim C7, as stated, fails. In \<open>jump_state\<close> the last sample has speed 450, density 3
  and bz -2, and the sample thirty places before it has speed 300, so the round computes
  deltaV = 150. The round does not fire, and the scan of that buffer creates no detection.
\<close>

theorem cme_rule_jump_counterexample:
  "sample_at jump_state 30 = Some (jump_row, 450, 3, - 2)
   \<and> deltaV_at (plasmaBuffer jump_state) 30 450 = Some 150
   \<and> \<not> fires jump_state 30
   \<and> fst (runDetection jump_state) = []"
proof -
  have "\<not> fires jump_state i" if "i \<in> set [0..<31]" for i
  proof (cases "i < 30")
    case True
    then show ?thesis by (rule jump_quiet_rounds)
  next
    case False
    with that have "i = 30" by simp
    then show ?thesis using jump_last_round by simp
  qed
  then have "foldl (detect_step jump_state) [] [0..<31] = []"
    by (intro scan_none) blast
  moreover have "length (plasmaBuffer jump_state) = 31"
    by (simp add: jump_state_def)
  ultimately have "fst (runDetection jump_state) = []"
    by (simp add: scan_runDetection)
  then show ?thesis
    using jump_sample jump_deltaV jump_last_round by simp
qed

text \<open>
  Claim C7, amended. The sample speed 450, density 3, bz -2 with deltaV 150 does not fire:
  shock holds, but highSpeed, highDensity and southBz are all false, so neither disjunct of
  the rule holds, and the round at that sample leaves the new detections as they were.
\<close>

theorem cme_rule_jump_not_fired:
  "(let shock = ((150::real) > deltaV_min);
        highSpeed = ((450::real) > speed_high);
        highDensity = ((3::real) > density_high);
        southBz = ((- 2::real) < bz_south)
    in shock \<and> \<not> highSpeed \<and> \<not> highDensity \<and> \<not> southBz)
   \<and> \<not> isCME 450 3 (- 2) (Some 150)
   \<and> detect_step jump_state new 30 = new"
  using step_skip [OF jump_last_round, of new]
  by (simp add: isCME_def rule_consts)

section \<open>The velocity jump when the earlier speed is null (claim C3)\<close>

lemma gap_early_rounds: "i < 30 \<Longrightarrow> \<not> fires gap_state i"
proof (cases i)
  case 0
  then have "sample_at gap_state i = None"
    by (simp add: sample_at_def gap_state_def nth_opt_def gap_row_def)
  then show ?thesis
    by (simp add: fires_def)
next
  case (Suc n)
  assume i: "i < 30"
  then have "sample_at gap_state i = Some (quiet_row, 300, 3, - 2)"
    using quiet_mag_at [OF i] Suc
    by (simp add: sample_at_def gap_state_def nth_opt_def nth_append quiet_row_def)
  then show ?thesis
    by (rule not_fires_slow_thin) simp_all
qed

lemma gap_sample: "sample_at gap_state 30 = Some (dense_row, 450, 12, - 2)"
  by (simp add: sample_at_def gap_state_def nth_opt_def nth_append dense_row_def
      jump_mag_def field_at_def at_index_def)

lemma gap_deltaV: "deltaV_at (plasmaBuffer gap_state) 30 450 = Some 450"
  by (simp add: deltaV_at_lookback gap_state_def gap_row_def to_number_def fsub_def rnd_whole)

lemma gap_last_round: "fires gap_state 30"
  by (simp add: fires_def gap_sample gap_deltaV isCME_def rule_consts)

text \<open>
  Claim C3 at a null earlier speed. In \<open>gap_state\<close> the sample at index 0 has a null
  speed and the sample at index 30 has speed 450. The subtraction reads the null as 0: the
  round at index 30 computes deltaV = 450, not null, and with density 12 it fires, so the
  scan creates a detection for that sample.
\<close>

theorem deltaV_null_prior_speed:
  "nth_opt (plasmaBuffer gap_state) 0 = Some gap_row
   \<and> speed gap_row = None
   \<and> deltaV_at (plasmaBuffer gap_state) 30 450 = Some 450
   \<and> fires gap_state 30
   \<and> map det_id (fst (runDetection gap_state)) = [''2024-05-10 16:30:00.000_450'']"
proof -
  have len: "length (plasmaBuffer gap_state) = 31"
    by (simp add: gap_state_def)
  have "foldl (detect_step gap_state) [] [0..<30] = []"
    by (intro scan_none) (use gap_early_rounds in auto)
  moreover have "[0..<31::nat] = [0..<30] @ [30]"
    using upt_Suc_append [of 0 30] by simp
  ultimately have scan: "fst (runDetection gap_state) = detect_step gap_state [] 30"
    using len by (simp add: scan_runDetection)
  have "id_at gap_state 30 = ''2024-05-10 16:30:00.000_450''"
    by (simp add: id_at_def gap_sample detection_id_def dense_row_def Math_round_def int_string_450)
  moreover obtain d where "det_id d = id_at gap_state 30" "detect_step gap_state [] 30 = [] @ [d]"
    using step_push [OF gap_last_round, of "[]"] by (auto simp: has_id_def gap_state_def)
  ultimately have "map det_id (fst (runDetection gap_state)) = [''2024-05-10 16:30:00.000_450'']"
    using scan by simp
  then show ?thesis
    using gap_deltaV gap_last_round
    by (simp add: gap_state_def nth_opt_def gap_row_def)
qed


section \<open>The rule (claim C1)\<close>

lemma isCME_rule_spec: "isCME spd dens bzv dv = rule_spec spd dens bzv dv"
  by (cases dv) (simp_all add: isCME_def rule_spec_def rule_consts Let_def)

lemma deltaV_at_spec:
  assumes "nth_opt buf i = Some p" and "speed p = Some spd"
    and "i < 30 \<or> speed (buf ! (i - 30)) \<noteq> None"
  shows "deltaV_at buf i spd = deltaV_spec buf i"
proof (cases "i < 30")
  case True
  then show ?thesis
    by (simp add: deltaV_at_early deltaV_spec_def)
next
  case False
  then obtain u where u: "speed (buf ! (i - 30)) = Some u"
    using assms(3) by auto
  have len: "i < length buf"
    using assms(1) by (simp add: nth_opt_def split: if_splits)
  then have "deltaV_at buf i spd = Some (fsub spd u)"
    using False by (simp add: deltaV_at_lookback u to_number_def)
  moreover have "deltaV_spec buf i = Some (fsub spd u)"
    using False len assms(1,2) u by (simp add: deltaV_spec_def nth_opt_def)
  ultimately show ?thesis by simp
qed

lemma fires_iff_rule_spec:
  assumes "nth_opt (plasmaBuffer st) i = Some p"
    and "speed p = Some spd"
    and "density p = Some dens"
    and "field_at (magBuffer st) bz (int i) = Some bzv"
    and "i < 30 \<or> speed (plasmaBuffer st ! (i - 30)) \<noteq> None"
  shows "fires st i \<longleftrightarrow> rule_spec spd dens bzv (deltaV_spec (plasmaBuffer st) i)"
proof -
  have "sample_at st i = Some (p, spd, dens, bzv)"
    using assms(1-4) by (simp add: sample_at_def)
  then show ?thesis
    using deltaV_at_spec [OF assms(1,2,5)] by (simp add: fires_def isCME_rule_spec)
qed

lemma storm_rule:
  "deltaV_spec (plasmaBuffer storm_state) 0 = None"
  "rule_spec 600 12 (- 12) None"
  "fires storm_state 0"
  by (simp_all add: deltaV_spec_def rule_spec_def fires_def sample_at_def storm_state_def
      storm_row_def storm_mag_def nth_opt_def field_at_def at_index_def isCME_def rule_consts
      deltaV_at_early)

lemma shock_rule:
  "deltaV_spec (plasmaBuffer shock_state) 30 = Some 150"
  "rule_spec 450 12 (- 2) (Some 150)"
  "fires shock_state 30"
proof -
  have sa: "sample_at shock_state 30 = Some (dense_row, 450, 12, - 2)"
    by (simp add: sample_at_def shock_state_def nth_opt_def nth_append dense_row_def
        jump_mag_def field_at_def at_index_def)
  have dv: "deltaV_at (plasmaBuffer shock_state) 30 450 = Some 150"
    by (simp add: deltaV_at_lookback shock_state_def nth_append quiet_row_def to_number_def
        fsub_def rnd_whole)
  show "deltaV_spec (plasmaBuffer shock_state) 30 = Some 150"
    by (simp add: deltaV_spec_def shock_state_def nth_opt_def nth_append dense_row_def
        quiet_row_def fsub_def rnd_whole)
  show "rule_spec 450 12 (- 2) (Some 150)"
    by (simp add: rule_spec_def)
  show "fires shock_state 30"
    by (simp add: fires_def sa dv isCME_def rule_consts)
qed

text \<open>
  Claim C1 at a null earlier speed. In \<open>gap_state\<close> the sample at index 30 has speed 450,
  density 12 and bz -2, all non-null, and the sample thirty places before it has a null
  speed, so the derived deltaV is null and the rule of the claim is false there (no shock,
  speed not above 500). The round at index 30 fires all the same and appends a detection.
\<close>

theorem rule_fires_without_shock:
  "sample_at gap_state 30 = Some (dense_row, 450, 12, - 2)
   \<and> deltaV_spec (plasmaBuffer gap_state) 30 = None
   \<and> \<not> rule_spec 450 12 (- 2) (deltaV_spec (plasmaBuffer gap_state) 30)
   \<and> fires gap_state 30
   \<and> detect_step gap_state [] 30 \<noteq> []"
proof -
  have dv: "deltaV_spec (plasmaBuffer gap_state) 30 = None"
    by (simp add: deltaV_spec_def gap_state_def nth_opt_def nth_append dense_row_def gap_row_def)
  have "\<not> has_id (id_at gap_state 30) (detections gap_state)"
    by (simp add: has_id_def gap_state_def)
  then obtain d where "detect_step gap_state [] 30 = [] @ [d]"
    using step_push [OF gap_last_round, of "[]"] by (auto simp: has_id_def)
  then show ?thesis
    using gap_sample gap_last_round by (simp add: dv rule_spec_def)
qed

section \<open>Scanning twice (claim C4)\<close>

lemma storm_fires: "fires storm_state 0"
  by (simp add: fires_def sample_at_def storm_state_def storm_row_def storm_mag_def nth_opt_def
      field_at_def at_index_def isCME_def rule_consts deltaV_at_early)

lemma storm_scan: "\<exists>d. fst (runDetection storm_state) = [d]"
proof -
  have "\<not> has_id (id_at storm_state 0) (detections storm_state)"
    by (simp add: has_id_def storm_state_def)
  then obtain d where "detect_step storm_state [] 0 = [] @ [d]"
    using step_push [OF storm_fires, of "[]"] by (auto simp: has_id_def)
  moreover have "length (plasmaBuffer storm_state) = 1"
    by (simp add: storm_state_def)
  ultimately show ?thesis
    by (simp add: scan_runDetection)
qed









lemma crowd_sample: "k < 101 \<Longrightarrow> sample_at crowded_state k = Some (crowd_row k, 600, 12, - 12)"
  by (simp add: sample_at_def crowded_state_def nth_opt_def crowd_row_def crowd_mag_def
      field_at_def at_index_def)

lemma crowd_fires: "k < 101 \<Longrightarrow> fires crowded_state k"
  by (simp add: fires_def crowd_sample isCME_def rule_consts)

lemma crowd_id: "k < 101 \<Longrightarrow> id_at crowded_state k = detection_id (replicate k (CHR ''m'')) 600"
  by (simp add: id_at_def crowd_sample crowd_row_def)

lemma crowd_id_inj:
  "j < 101 \<Longrightarrow> k < 101 \<Longrightarrow> id_at crowded_state j = id_at crowded_state k \<Longrightarrow> j = k"
proof -
  assume "j < 101" "k < 101" "id_at crowded_state j = id_at crowded_state k"
  then have "length (detection_id (replicate j (CHR ''m'')) 600)
             = length (detection_id (replicate k (CHR ''m'')) 600)"
    by (simp add: crowd_id)
  then show "j = k"
    by (simp add: detection_id_def)
qed

lemma crowd_ids_distinct: "distinct (map (id_at crowded_state) [0..<101])"
  by (simp add: distinct_map inj_on_def) (use crowd_id_inj in auto)

lemma crowd_first_scan:
  "map det_id (fst (runDetection crowded_state)) = map (id_at crowded_state) [0..<101]"
proof -
  have "length (plasmaBuffer crowded_state) = 101"
    by (simp add: crowded_state_def)
  then have "fst (runDetection crowded_state) = foldl (detect_step crowded_state) [] [0..<101]"
    by (simp add: scan_runDetection)
  moreover have "detections crowded_state = []"
    by (simp add: crowded_state_def)
  ultimately show ?thesis
    using scan_all_fresh [of "[0..<101]" crowded_state "[]"] crowd_fires crowd_ids_distinct
    by (simp add: has_id_def)
qed

lemma crowd_first_scan_length: "length (fst (runDetection crowded_state)) = 101"
proof -
  have "length (map det_id (fst (runDetection crowded_state))) = 101"
    by (simp only: crowd_first_scan) simp
  then show ?thesis by simp
qed

lemma crowd_log:
  "detections (snd (runDetection crowded_state)) = drop 1 (fst (runDetection crowded_state))"
proof -
  have "fst (runDetection crowded_state) \<noteq> []"
    using crowd_first_scan_length by auto
  moreover have "detections crowded_state = []"
    by (simp add: crowded_state_def)
  ultimately show ?thesis
    by (simp add: detections_runDetection last_n_def crowd_first_scan_length)
qed


section \<open>The two buffers stay aligned and bounded (claim C2)\<close>

lemma last_n_append: "last_n n (last_n n xs @ ys) = last_n n (xs @ ys)"
  by (cases "length xs \<le> n") (simp_all add: last_n_def add.commute)

lemma push_pair_lengths:
  assumes "length (plasmaBuffer st) = length (magBuffer st)"
    and "length (plasmaBuffer st) \<le> BUFFER_MAX"
  shows "length (plasmaBuffer (push_pair st p m)) = length (magBuffer (push_pair st p m))"
    and "length (plasmaBuffer (push_pair st p m)) \<le> BUFFER_MAX"
  using assms by (simp_all add: push_pair_def Let_def)

lemma zip_tl: "zip (tl xs) (tl ys) = tl (zip xs ys)"
  by (cases xs; cases ys) simp_all

lemma push_pair_pairs:
  assumes "length (plasmaBuffer st) = length (magBuffer st)"
    and "length (plasmaBuffer st) \<le> BUFFER_MAX"
  shows "buffer_pairs (push_pair st p m) = last_n BUFFER_MAX (buffer_pairs st @ [(p, m)])"
proof (cases "length (plasmaBuffer st) = BUFFER_MAX")
  case True
  define zs where "zs = buffer_pairs st @ [(p, m)]"
  have "buffer_pairs (push_pair st p m) = tl zs"
    using True assms by (simp add: zs_def push_pair_def buffer_pairs_def Let_def zip_tl)
  moreover have "length zs = Suc BUFFER_MAX"
    using True assms by (simp add: zs_def buffer_pairs_def)
  then have "last_n BUFFER_MAX zs = drop (Suc 0) zs"
    by (simp add: last_n_def)
  then have "last_n BUFFER_MAX zs = tl zs"
    by (simp add: drop_Suc)
  ultimately show ?thesis
    by (simp add: zs_def)
next
  case False
  then show ?thesis
    using assms by (simp add: push_pair_def buffer_pairs_def Let_def last_n_def)
qed

lemma push_all_inv:
  assumes "length (plasmaBuffer st) = length (magBuffer st)"
    and "length (plasmaBuffer st) \<le> BUFFER_MAX"
  shows "length (plasmaBuffer (foldl (\<lambda>s p. push_pair s p (f p)) st ps))
           = length (magBuffer (foldl (\<lambda>s p. push_pair s p (f p)) st ps))
         \<and> length (plasmaBuffer (foldl (\<lambda>s p. push_pair s p (f p)) st ps)) \<le> BUFFER_MAX
         \<and> buffer_pairs (foldl (\<lambda>s p. push_pair s p (f p)) st ps)
           = last_n BUFFER_MAX (buffer_pairs st @ map (\<lambda>p. (p, f p)) ps)"
  using assms
proof (induction ps arbitrary: st)
  case Nil
  then show ?case
    by (simp add: last_n_def buffer_pairs_def)
next
  case (Cons p ps)
  let ?st = "push_pair st p (f p)"
  have l: "length (plasmaBuffer ?st) = length (magBuffer ?st)" "length (plasmaBuffer ?st) \<le> BUFFER_MAX"
    using push_pair_lengths [OF Cons.prems] by simp_all
  have "buffer_pairs ?st = last_n BUFFER_MAX (buffer_pairs st @ [(p, f p)])"
    using push_pair_pairs [OF Cons.prems] by simp
  then show ?case
    using Cons.IH [OF l] by (simp add: last_n_append)
qed

lemma append_batch_inv:
  assumes "length (plasmaBuffer st) = length (magBuffer st)"
    and "length (plasmaBuffer st) \<le> BUFFER_MAX"
  shows "length (plasmaBuffer (append_batch st ps ms)) = length (magBuffer (append_batch st ps ms))
         \<and> length (plasmaBuffer (append_batch st ps ms)) \<le> BUFFER_MAX
         \<and> buffer_pairs (append_batch st ps ms)
           = last_n BUFFER_MAX (buffer_pairs st @ map (\<lambda>p. (p, match_mag (magByTime ms) p)) ps)"
  using push_all_inv [OF assms, of "match_mag (magByTime ms)" ps]
  by (simp add: append_batch_def Let_def)

lemma pollNOAA_inv:
  assumes "length (plasmaBuffer st) = length (magBuffer st)"
    and "length (plasmaBuffer st) \<le> BUFFER_MAX"
  shows "length (plasmaBuffer (pollNOAA st ps ms)) = length (magBuffer (pollNOAA st ps ms))
         \<and> length (plasmaBuffer (pollNOAA st ps ms)) \<le> BUFFER_MAX"
  using append_batch_inv [OF assms, of ps ms]
  by (simp add: pollNOAA_def runDetection_def Let_def)

lemma polls_inv:
  assumes "length (plasmaBuffer st) = length (magBuffer st)"
    and "length (plasmaBuffer st) \<le> BUFFER_MAX"
  shows "length (plasmaBuffer (foldl (\<lambda>s (ps, ms). pollNOAA s ps ms) st batches))
           = length (magBuffer (foldl (\<lambda>s (ps, ms). pollNOAA s ps ms) st batches))
         \<and> length (plasmaBuffer (foldl (\<lambda>s (ps, ms). pollNOAA s ps ms) st batches)) \<le> BUFFER_MAX"
  using assms
proof (induction batches arbitrary: st)
  case Nil
  then show ?case by simp
next
  case (Cons b batches)
  obtain ps ms where b: "b = (ps, ms)" by (cases b)
  show ?case
    using Cons.IH [of "pollNOAA st ps ms"] pollNOAA_inv [OF Cons.prems, of ps ms]
    by (simp add: b)
qed

lemma run_polls_inv:
  "length (plasmaBuffer (run_polls batches)) = length (magBuffer (run_polls batches))
   \<and> length (plasmaBuffer (run_polls batches)) \<le> BUFFER_MAX"
  unfolding run_polls_def
  by (rule polls_inv) (simp_all add: initial_state_def)

lemma magByTime_key:
  "magByTime ms t = Some m \<Longrightarrow> timeISO m = t"
  unfolding magByTime_def
proof (induction ms arbitrary: m rule: rev_induct)
  case Nil
  then show ?case by simp
next
  case (snoc x xs)
  have step: "foldl (\<lambda>tbl m. tbl(timeISO m \<mapsto> m)) Map.empty (xs @ [x]) t
              = (if t = timeISO x then Some x
                 else foldl (\<lambda>tbl m. tbl(timeISO m \<mapsto> m)) Map.empty xs t)"
    by (simp only: foldl_append foldl.simps fun_upd_apply)
  show ?case
  proof (cases "t = timeISO x")
    case True
    then show ?thesis using snoc.prems step by simp
  next
    case False
    then have "foldl (\<lambda>tbl m. tbl(timeISO m \<mapsto> m)) Map.empty xs t = Some m"
      using snoc.prems step by (simp only: if_False)
    then show ?thesis by (rule snoc.IH)
  qed
qed

lemma match_mag_time: "timeISO (match_mag (magByTime ms) p) = timeISO p"
proof (cases "magByTime ms (timeISO p)")
  case None
  then show ?thesis by (simp add: match_mag_def null_mag_def)
next
  case (Some m)
  then show ?thesis using magByTime_key [OF Some] by (simp add: match_mag_def)
qed

lemma list_all_last_n: "list_all P xs \<Longrightarrow> list_all P (last_n n xs)"
  by (simp add: last_n_def list_all_iff) (meson in_set_dropD)

lemma append_batch_times:
  assumes "length (plasmaBuffer st) = length (magBuffer st)"
    and "length (plasmaBuffer st) \<le> BUFFER_MAX"
    and "list_all (\<lambda>(p, m). timeISO p = timeISO m) (buffer_pairs st)"
  shows "list_all (\<lambda>(p, m). timeISO p = timeISO m) (buffer_pairs (append_batch st ps ms))"
proof -
  have "list_all (\<lambda>(p, m). timeISO p = timeISO m)
          (map (\<lambda>p. (p, match_mag (magByTime ms) p)) ps)"
    by (simp add: list_all_iff match_mag_time)
  then have "list_all (\<lambda>(p, m). timeISO p = timeISO m)
          (buffer_pairs st @ map (\<lambda>p. (p, match_mag (magByTime ms) p)) ps)"
    using assms(3) by simp
  then show ?thesis
    using append_batch_inv [OF assms(1,2), of ps ms] by (simp add: list_all_last_n)
qed

lemma pollNOAA_pairs: "buffer_pairs (pollNOAA st ps ms) = buffer_pairs (append_batch st ps ms)"
  by (simp add: pollNOAA_def buffer_pairs_def buffers_runDetection)

lemma polls_times:
  assumes "length (plasmaBuffer st) = length (magBuffer st)"
    and "length (plasmaBuffer st) \<le> BUFFER_MAX"
    and "list_all (\<lambda>(p, m). timeISO p = timeISO m) (buffer_pairs st)"
  shows "list_all (\<lambda>(p, m). timeISO p = timeISO m)
           (buffer_pairs (foldl (\<lambda>s (ps, ms). pollNOAA s ps ms) st batches))"
  using assms
proof (induction batches arbitrary: st)
  case Nil
  then show ?case by simp
next
  case (Cons b batches)
  obtain ps ms where b: "b = (ps, ms)" by (cases b)
  have "list_all (\<lambda>(p, m). timeISO p = timeISO m) (buffer_pairs (pollNOAA st ps ms))"
    using append_batch_times [OF Cons.prems, of ps ms] by (simp add: pollNOAA_pairs)
  then show ?case
    using Cons.IH [of "pollNOAA st ps ms"] pollNOAA_inv [OF Cons.prems(1,2), of ps ms]
    by (simp add: b)
qed

lemma run_polls_times:
  "list_all (\<lambda>(p, m). timeISO p = timeISO m) (buffer_pairs (run_polls batches))"
  unfolding run_polls_def
  by (rule polls_times) (simp_all add: initial_state_def buffer_pairs_def)

text \<open>
  Claim C2. In every state reached from process start by successful polls, and after one
  more append of a batch to such a state, the plasma buffer and the field buffer have the
  same length, at most 3000, and the rows still stand side by side: the pairs of the two
  buffers are the last 3000 of the pairs held before followed by the appended pairs, so
  an eviction drops the oldest row of both buffers together, and the two rows of every
  pair carry the same time.
\<close>

theorem buffers_bounded_aligned:
  "(let st = run_polls batches;
        st' = append_batch st plasmaRows magRows
    in length (plasmaBuffer st') = length (magBuffer st')
       \<and> length (plasmaBuffer st') \<le> 3000
       \<and> buffer_pairs st'
           = last_n 3000 (buffer_pairs st
                          @ map (\<lambda>p. (p, match_mag (magByTime magRows) p)) plasmaRows)
       \<and> list_all (\<lambda>(p, m). timeISO p = timeISO m) (buffer_pairs st')
       \<and> length (plasmaBuffer (pollNOAA st plasmaRows magRows))
           = length (magBuffer (pollNOAA st plasmaRows magRows))
       \<and> length (plasmaBuffer (pollNOAA st plasmaRows magRows)) \<le> 3000)"
proof -
  have inv: "length (plasmaBuffer (run_polls batches)) = length (magBuffer (run_polls batches))"
    "length (plasmaBuffer (run_polls batches)) \<le> BUFFER_MAX"
    using run_polls_inv [of batches] by simp_all
  show ?thesis
    using append_batch_inv [OF inv, of plasmaRows magRows]
      pollNOAA_inv [OF inv, of plasmaRows magRows]
      append_batch_times [OF inv run_polls_times, of plasmaRows magRows]
    by (simp add: Let_def BUFFER_MAX_def)
qed

section \<open>Appending when one of the two lists is empty (claim C8)\<close>

text \<open>
  Claim C8, as stated, fails for an empty list of field rows: appending one plasma row and
  no field row to the empty buffers stores the row, next to a field row of nulls.
\<close>

theorem append_empty_field_counterexample:
  "plasmaBuffer (append_batch initial_state [storm_row] []) = [storm_row]
   \<and> magBuffer (append_batch initial_state [storm_row] []) = [null_mag ''2024-05-10 17:05:00.000'']
   \<and> append_batch initial_state [storm_row] [] \<noteq> initial_state"
proof -
  have "plasmaBuffer (append_batch initial_state [storm_row] []) = [storm_row]
   \<and> magBuffer (append_batch initial_state [storm_row] []) = [null_mag ''2024-05-10 17:05:00.000'']"
    by (simp add: append_batch_def magByTime_def match_mag_def push_pair_def initial_state_def
        BUFFER_MAX_def Let_def storm_row_def)
  moreover have "plasmaBuffer initial_state = []" by (simp add: initial_state_def)
  ultimately show ?thesis by auto
qed

text \<open>
  Claim C8, amended. With an empty list of plasma rows the append leaves the state as it
  was, whatever the field rows. With an empty list of field rows every plasma row is
  appended, each next to a field row of nulls that carries its time.
\<close>

theorem append_batch_empty_inputs:
  "append_batch st [] magRows = st
   \<and> append_batch st plasmaRows []
       = foldl (\<lambda>s p. push_pair s p (null_mag (timeISO p))) st plasmaRows"
  by (simp add: append_batch_def magByTime_def match_mag_def Let_def)

section \<open>The limit of the export (claim C9)\<close>

lemma export_limit_bounded:
  "export_limit q = NegInf \<or> (\<exists>r. export_limit q = Fin r \<and> r \<le> 50000)"
  by (cases q) (simp_all add: export_limit_def or_default_def Math_min_def)

lemma export_limit_large: "r > 50000 \<Longrightarrow> export_limit (Fin r) = Fin 50000"
  by (simp add: export_limit_def or_default_def Math_min_def)

lemma export_limit_default: "export_limit NaN = Fin 1000" "export_limit (Fin 0) = Fin 1000"
  by (simp_all add: export_limit_def or_default_def Math_min_def)

lemma export_rows_whole_limit:
  "export_limit q = Fin (real n) \<Longrightarrow> 0 < n \<Longrightarrow> export_rows None q st = last_n n (detections st)"
proof -
  assume q: "export_limit q = Fin (real n)" and n: "0 < n"
  have "\<lceil>- real n\<rceil> = - int n"
    by (simp add: ceiling_minus)
  then have "trunc (- real n) = - int n"
    using n by (simp add: trunc_def)
  then have "slice_from (detections st) (trunc (- real n))
             = drop (nat (max (int (length (detections st)) - int n) 0)) (detections st)"
    using n by (simp add: slice_from_def Let_def)
  moreover have "nat (max (int (length (detections st)) - int n) 0) = length (detections st) - n"
    by linarith
  ultimately show ?thesis
    by (simp add: export_rows_def slice_neg_def q last_n_def)
qed

text \<open>
  Claim C9 at a negative limit. The limit -5 passes the clamp unchanged, and without a
  store the export returns the log without its five oldest entries: 95 rows of the 100
  that the log holds after the scan of \<open>crowded_state\<close>.
\<close>

theorem export_negative_limit:
  "export_limit (Fin (- 5)) = Fin (- 5)
   \<and> export_rows None (Fin (- 5)) st = drop 5 (detections st)
   \<and> length (detections (snd (runDetection crowded_state))) = 100
   \<and> length (export_rows None (Fin (- 5)) (snd (runDetection crowded_state))) = 95"
proof -
  have rows: "export_rows None (Fin (- 5)) s = drop 5 (detections s)" for s
    by (simp add: export_limit_def or_default_def Math_min_def export_rows_def slice_neg_def
        slice_from_def trunc_def Let_def min_def)
  have "length (detections (snd (runDetection crowded_state))) = 100"
    by (simp add: crowd_log crowd_first_scan_length)
  then show ?thesis
    by (simp add: rows) (simp add: export_limit_def or_default_def Math_min_def)
qed

section \<open>The anomaly check (claim C5)\<close>

lemma foldl_collect:
  "foldl (\<lambda>vals i. case g i of None \<Rightarrow> vals | Some v \<Rightarrow> vals @ [v]) acc idxs
     = acc @ List.map_filter g idxs"
  by (induction idxs arbitrary: acc) (simp_all split: option.splits)

lemma zCheck_window:
  "zCheck (max 0 (idx - 60)) idx arr field =
     (let vals = window_vals arr field idx;
          n = real (length vals);
          mean = fdiv (foldl fadd 0 vals) n;
          root = fsqrt (fdiv (foldl (\<lambda>a b. fadd a (fmul (fsub b mean) (fsub b mean))) 0 vals) n);
          sd = (if root = 0 then rnd (1 / 100000) else root)
      in if length vals < 8 then None
         else (case field_at arr field idx of
                 None \<Rightarrow> None
               | Some cur \<Rightarrow>
                   Some \<lparr>zs_z = fdiv (fsub cur mean) sd, zs_mean = mean, zs_sd = sd,
                         zs_cur = cur\<rparr>))"
  by (simp add: zCheck_def window_vals_def foldl_collect Let_def)

lemma trigger_entry_empty: "trigger_entry metric r = [] \<longleftrightarrow> \<not> z_triggered r"
  by (simp add: trigger_entry_def z_triggered_def split: option.splits)

lemma anomaly_flags:
  "an_speed (detectAnomalyAt plasma mag idx) = z_triggered (zCheck (max 0 (idx - 60)) idx plasma speed)"
  "an_bz (detectAnomalyAt plasma mag idx) = z_triggered (zCheck (max 0 (idx - 60)) idx mag bz)"
  "an_density (detectAnomalyAt plasma mag idx) = z_triggered (zCheck (max 0 (idx - 60)) idx plasma density)"
  "isAnomaly (detectAnomalyAt plasma mag idx)
     \<longleftrightarrow> an_speed (detectAnomalyAt plasma mag idx) \<or> an_bz (detectAnomalyAt plasma mag idx)
         \<or> an_density (detectAnomalyAt plasma mag idx)"
  by (auto simp: detectAnomalyAt_def Let_def trigger_entry_empty)

lemma upt_8: "[0..<8] = [0, 1, 2, 3, 4, 5, 6, 7::nat]"
  by code_simp

lemma ripple_window: "window_vals ripple_mag bz 8 = take 8 ripple_bz"
  by (simp add: window_vals_def upt_8 field_at_def at_index_def nth_opt_def
      ripple_mag_def ripple_bz_def)

lemma rnd_ripple:
  "rnd (1 / 1048576) = 1 / 1048576" "rnd (- (1 / 1048576)) = - (1 / 1048576)"
  "rnd (1 / 65536) = 1 / 65536"
  "rnd (1 / 1099511627776) = 1 / 1099511627776" "rnd (1 / 549755813888) = 1 / 549755813888"
  "rnd (3 / 1099511627776) = 3 / 1099511627776" "rnd (1 / 274877906944) = 1 / 274877906944"
  "rnd (5 / 1099511627776) = 5 / 1099511627776" "rnd (3 / 549755813888) = 3 / 549755813888"
  "rnd (7 / 1099511627776) = 7 / 1099511627776" "rnd (1 / 137438953472) = 1 / 137438953472"
  using rnd_fixed [of 1 20] rnd_fixed [of "- 1" 20] rnd_fixed [of 1 16]
    rnd_fixed [of 1 40] rnd_fixed [of 1 39] rnd_fixed [of 3 40] rnd_fixed [of 1 38]
    rnd_fixed [of 5 40] rnd_fixed [of 3 39] rnd_fixed [of 7 40] rnd_fixed [of 1 37]
  by simp_all

lemma ripple_zcheck:
  "zCheck 0 8 ripple_mag bz
     = Some \<lparr>zs_z = 16, zs_mean = 0, zs_sd = 1 / 1048576, zs_cur = 1 / 65536\<rparr>"
proof -
  have root: "sqrt (1 / 1099511627776) = 1 / 1048576"
    by (rule real_sqrt_unique) (simp_all add: power2_eq_square)
  have cur: "field_at ripple_mag bz 8 = Some (1 / 65536)"
    by (simp add: field_at_def at_index_def nth_opt_def ripple_mag_def ripple_bz_def)
  have vals: "window_vals ripple_mag bz 8
     = [1 / 1048576, - 1 / 1048576, 1 / 1048576, - 1 / 1048576,
        1 / 1048576, - 1 / 1048576, 1 / 1048576, - 1 / 1048576]"
    by (simp add: ripple_window ripple_bz_def)
  have total: "foldl fadd 0 (window_vals ripple_mag bz 8) = 0"
    by (simp add: vals fadd_def rnd_ripple rnd_whole)
  have mean: "fdiv 0 8 = 0"
    by (simp add: fdiv_def rnd_whole)
  have squares: "foldl (\<lambda>a b. fadd a (fmul (fsub b 0) (fsub b 0))) 0 (window_vals ripple_mag bz 8)
                   = 1 / 137438953472"
    by (simp add: vals fadd_def fmul_def fsub_def rnd_ripple rnd_whole)
  have sd: "fsqrt (fdiv (1 / 137438953472) 8) = 1 / 1048576"
    by (simp add: fsqrt_def fdiv_def rnd_ripple root)
  have z: "fdiv (fsub (1 / 65536) 0) (1 / 1048576) = 16"
    by (simp add: fdiv_def fsub_def rnd_ripple rnd_whole)
  have len: "length (window_vals ripple_mag bz 8) = 8"
    by (simp add: vals)
  show ?thesis
    using zCheck_window [of 8 ripple_mag bz]
    by (simp add: Let_def len total mean squares sd z cur)
qed

text \<open>
  Claim C5, as stated, fails in its sentence on the floor. The eight field values before
  index 8 of \<open>ripple_mag\<close> have mean 0 and standard deviation 2^-20, below 1e-5. The check
  divides by 2^-20, not by 1e-5: the z-score of the value 2^-16 at index 8 is 16, and bz
  is triggered, where a deviation floored to 1e-5 would give a z-score below 3.
\<close>

theorem anomaly_sd_below_floor_counterexample:
  "zCheck (max 0 (8 - 60)) 8 ripple_mag bz
     = Some \<lparr>zs_z = 16, zs_mean = 0, zs_sd = 1 / 1048576, zs_cur = 1 / 65536\<rparr>
   \<and> (1 / 1048576 :: real) < 1 / 100000
   \<and> an_bz (detectAnomalyAt ripple_plasma ripple_mag 8)
   \<and> \<not> \<bar>(1 / 65536 - 0) / (1 / 100000 :: real)\<bar> > 3"
  by (simp add: anomaly_flags ripple_zcheck z_triggered_def)

text \<open>
  Claim C5, amended. For every target index and each of the three metrics, the check takes
  the non-null values of the window from max(0, idx - 60) up to, and without, idx; it yields
  no result when they are fewer than 8 (nor when the current value is null); otherwise it
  computes their mean and population standard deviation, every sum, difference, product,
  quotient and the square root being the one doubles give, replaces the computed
  deviation by 1e-5 when it is exactly zero (a positive deviation below 1e-5 is used as it
  is), and returns z = (current - mean) / deviation. A metric is triggered exactly when it
  has a result with |z| > 3, and isAnomaly is true exactly when at least one metric is
  triggered.
\<close>

theorem anomaly_check_characterised:
  "zCheck (max 0 (idx - 60)) idx arr field =
     (let vals = window_vals arr field idx;
          n = real (length vals);
          mean = fdiv (foldl fadd 0 vals) n;
          root = fsqrt (fdiv (foldl (\<lambda>a b. fadd a (fmul (fsub b mean) (fsub b mean))) 0 vals) n);
          sd = (if root = 0 then rnd (1 / 100000) else root)
      in if length vals < 8 then None
         else (case field_at arr field idx of
                 None \<Rightarrow> None
               | Some cur \<Rightarrow>
                   Some \<lparr>zs_z = fdiv (fsub cur mean) sd, zs_mean = mean, zs_sd = sd,
                         zs_cur = cur\<rparr>))
   \<and> (let out = detectAnomalyAt plasma mag idx;
           s = max 0 (idx - 60)
       in (an_speed out \<longleftrightarrow>
             (case zCheck s idx plasma speed of None \<Rightarrow> False | Some r \<Rightarrow> \<bar>zs_z r\<bar> > 3))
          \<and> (an_bz out \<longleftrightarrow>
             (case zCheck s idx mag bz of None \<Rightarrow> False | Some r \<Rightarrow> \<bar>zs_z r\<bar> > 3))
          \<and> (an_density out \<longleftrightarrow>
             (case zCheck s idx plasma density of None \<Rightarrow> False | Some r \<Rightarrow> \<bar>zs_z r\<bar> > 3))
          \<and> (isAnomaly out \<longleftrightarrow> an_speed out \<or> an_bz out \<or> an_density out))"
proof -
  have flags: "isAnomaly (detectAnomalyAt plasma mag idx)
     \<longleftrightarrow> an_speed (detectAnomalyAt plasma mag idx) \<or> an_bz (detectAnomalyAt plasma mag idx)
         \<or> an_density (detectAnomalyAt plasma mag idx)"
    by (rule anomaly_flags(4))
  show ?thesis
    using zCheck_window [of idx arr field] flags
    by (simp add: Let_def anomaly_flags(1,2,3) z_triggered_def)
qed

text \<open>
  A window of eight equal speeds 300.1, then 300.10002. The sum of the eight doubles is
  rounded four times, the mean is one last place below 300.1, and the computed deviation
  is 2^-44, not zero: the value 1e-5 is not used, and the z-score is 351843721.
\<close>

lemma hum_zcheck:
  "zCheck 0 8 hum_plasma speed
     = Some \<lparr>zs_z = 351843721, zs_mean = 5279415031929241 / 17592186044416,
             zs_sd = 1 / 17592186044416, zs_cur = 2639707691886481 / 8796093022208\<rparr>"
proof -
  define A :: real where "A = 2639707515964621 / 8796093022208"
  define C :: real where "C = 2639707691886481 / 8796093022208"
  have "(3001 / 10 :: real) / 2 powi (8 - 52) = of_int 5279415031929241 + 3 / 5"
    by (simp add: power_int_minus)
  moreover have "round_even (of_int 5279415031929241 + 3 / 5) = 5279415031929242"
    by (subst round_even_above) simp_all
  ultimately have "round_even ((3001 / 10 :: real) / 2 powi (8 - 52)) = 5279415031929242"
    by (simp only:)
  then have litA0: "rnd (3001 / 10) = 2639707515964621 / 8796093022208"
    using rnd_binade [of 8 "3001 / 10"] by (simp add: power_int_minus)
  have litA: "rnd (3001 / 10) = A"
    using litA0 by (simp add: A_def)
  have "(15005001 / 50000 :: real) / 2 powi (8 - 52) = of_int 5279415383772962 + 1526 / 3125"
    by (simp add: power_int_minus)
  moreover have "round_even (of_int 5279415383772962 + 1526 / 3125) = 5279415383772962"
    by (subst round_even_below) simp_all
  ultimately have "round_even ((15005001 / 50000 :: real) / 2 powi (8 - 52)) = 5279415383772962"
    by (simp only:)
  then have litC0: "rnd (15005001 / 50000) = 2639707691886481 / 8796093022208"
    using rnd_binade [of 8 "15005001 / 50000"] by (simp add: power_int_minus)
  have litC: "rnd (15005001 / 50000) = C"
    using litC0 by (simp add: C_def)
  have r1: "rnd (2639707515964621 / 8796093022208) = 2639707515964621 / 8796093022208"
    using rnd_fixed [of "2639707515964621" 43] by simp
  have f1: "fadd 0 A = A"
    using r1 by (simp add: fadd_def A_def)
  define S2 :: real where "S2 = 2639707515964621 / 4398046511104"
  have r2: "rnd (2639707515964621 / 4398046511104) = 2639707515964621 / 4398046511104"
    using rnd_fixed [of "2639707515964621" 42] by simp
  have f2: "fadd A A = S2"
    using r2 by (simp add: fadd_def A_def S2_def)
  define S3 :: real where "S3 = 7919122547893863 / 8796093022208"
  have r3: "rnd (7919122547893863 / 8796093022208) = 7919122547893863 / 8796093022208"
    using rnd_fixed [of "7919122547893863" 43] by simp
  have f3: "fadd S2 A = S3"
    using r3 by (simp add: fadd_def A_def S2_def S3_def)
  define S4 :: real where "S4 = 2639707515964621 / 2199023255552"
  have r4: "rnd (2639707515964621 / 2199023255552) = 2639707515964621 / 2199023255552"
    using rnd_fixed [of "2639707515964621" 41] by simp
  have f4: "fadd S3 A = S4"
    using r4 by (simp add: fadd_def A_def S3_def S4_def)
  define S5 :: real where "S5 = 3001 / 2"
  have "(13198537579823105 / 8796093022208 :: real) / 2 powi (10 - 52) = of_int 6599268789911552 + 1 / 2"
    by (simp add: power_int_minus)
  moreover have "round_even (of_int 6599268789911552 + 1 / 2) = 6599268789911552"
    by (subst round_even_tie) simp
  ultimately have "round_even ((13198537579823105 / 8796093022208 :: real) / 2 powi (10 - 52)) = 6599268789911552"
    by (simp only:)
  then have r5: "rnd (13198537579823105 / 8796093022208) = 3001 / 2"
    using rnd_binade [of 10 "13198537579823105 / 8796093022208"] by (simp add: power_int_minus)
  have f5: "fadd S4 A = S5"
    using r5 by (simp add: fadd_def A_def S4_def S5_def)
  define S6 :: real where "S6 = 3959561273946931 / 2199023255552"
  have "(15838245095787725 / 8796093022208 :: real) / 2 powi (10 - 52) = of_int 7919122547893862 + 1 / 2"
    by (simp add: power_int_minus)
  moreover have "round_even (of_int 7919122547893862 + 1 / 2) = 7919122547893862"
    by (subst round_even_tie) simp
  ultimately have "round_even ((15838245095787725 / 8796093022208 :: real) / 2 powi (10 - 52)) = 7919122547893862"
    by (simp only:)
  then have r6: "rnd (15838245095787725 / 8796093022208) = 3959561273946931 / 2199023255552"
    using rnd_binade [of 10 "15838245095787725 / 8796093022208"] by (simp add: power_int_minus)
  have f6: "fadd S5 A = S6"
    using r6 by (simp add: fadd_def A_def S5_def S6_def)
  define S7 :: real where "S7 = 2309744076469043 / 1099511627776"
  have "(18477952611752345 / 8796093022208 :: real) / 2 powi (11 - 52) = of_int 4619488152938086 + 1 / 4"
    by (simp add: power_int_minus)
  moreover have "round_even (of_int 4619488152938086 + 1 / 4) = 4619488152938086"
    by (subst round_even_below) simp_all
  ultimately have "round_even ((18477952611752345 / 8796093022208 :: real) / 2 powi (11 - 52)) = 4619488152938086"
    by (simp only:)
  then have r7: "rnd (18477952611752345 / 8796093022208) = 2309744076469043 / 1099511627776"
    using rnd_binade [of 11 "18477952611752345 / 8796093022208"] by (simp add: power_int_minus)
  have f7: "fadd S6 A = S7"
    using r7 by (simp add: fadd_def A_def S6_def S7_def)
  define S8 :: real where "S8 = 5279415031929241 / 2199023255552"
  have "(21117660127716965 / 8796093022208 :: real) / 2 powi (11 - 52) = of_int 5279415031929241 + 1 / 4"
    by (simp add: power_int_minus)
  moreover have "round_even (of_int 5279415031929241 + 1 / 4) = 5279415031929241"
    by (subst round_even_below) simp_all
  ultimately have "round_even ((21117660127716965 / 8796093022208 :: real) / 2 powi (11 - 52)) = 5279415031929241"
    by (simp only:)
  then have r8: "rnd (21117660127716965 / 8796093022208) = 5279415031929241 / 2199023255552"
    using rnd_binade [of 11 "21117660127716965 / 8796093022208"] by (simp add: power_int_minus)
  have f8: "fadd S7 A = S8"
    using r8 by (simp add: fadd_def A_def S7_def S8_def)
  define Mn :: real where "Mn = 5279415031929241 / 17592186044416"
  have r9: "rnd (5279415031929241 / 17592186044416) = 5279415031929241 / 17592186044416"
    using rnd_fixed [of "5279415031929241" 44] by simp
  have f9: "fdiv S8 8 = Mn"
    using r9 by (simp add: fdiv_def Mn_def S8_def)
  define D :: real where "D = 1 / 17592186044416"
  have r10: "rnd (1 / 17592186044416) = 1 / 17592186044416"
    using rnd_fixed [of "1" 44] by simp
  have f10: "fsub A Mn = D"
    using r10 by (simp add: fsub_def A_def D_def Mn_def)
  define Q1 :: real where "Q1 = 1 / 309485009821345068724781056"
  have r11: "rnd (1 / 309485009821345068724781056) = 1 / 309485009821345068724781056"
    using rnd_fixed [of "1" 88] by simp
  have f11: "fmul D D = Q1"
    using r11 by (simp add: fmul_def D_def Q1_def)
  have r12: "rnd (1 / 309485009821345068724781056) = 1 / 309485009821345068724781056"
    using rnd_fixed [of "1" 88] by simp
  have f12: "fadd 0 Q1 = Q1"
    using r12 by (simp add: fadd_def Q1_def)
  define Q2 :: real where "Q2 = 1 / 154742504910672534362390528"
  have r13: "rnd (1 / 154742504910672534362390528) = 1 / 154742504910672534362390528"
    using rnd_fixed [of "1" 87] by simp
  have f13: "fadd Q1 Q1 = Q2"
    using r13 by (simp add: fadd_def Q1_def Q2_def)
  define Q3 :: real where "Q3 = 3 / 309485009821345068724781056"
  have r14: "rnd (3 / 309485009821345068724781056) = 3 / 309485009821345068724781056"
    using rnd_fixed [of "3" 88] by simp
  have f14: "fadd Q2 Q1 = Q3"
    using r14 by (simp add: fadd_def Q1_def Q2_def Q3_def)
  define Q4 :: real where "Q4 = 1 / 77371252455336267181195264"
  have r15: "rnd (1 / 77371252455336267181195264) = 1 / 77371252455336267181195264"
    using rnd_fixed [of "1" 86] by simp
  have f15: "fadd Q3 Q1 = Q4"
    using r15 by (simp add: fadd_def Q1_def Q3_def Q4_def)
  define Q5 :: real where "Q5 = 5 / 309485009821345068724781056"
  have r16: "rnd (5 / 309485009821345068724781056) = 5 / 309485009821345068724781056"
    using rnd_fixed [of "5" 88] by simp
  have f16: "fadd Q4 Q1 = Q5"
    using r16 by (simp add: fadd_def Q1_def Q4_def Q5_def)
  define Q6 :: real where "Q6 = 3 / 154742504910672534362390528"
  have r17: "rnd (3 / 154742504910672534362390528) = 3 / 154742504910672534362390528"
    using rnd_fixed [of "3" 87] by simp
  have f17: "fadd Q5 Q1 = Q6"
    using r17 by (simp add: fadd_def Q1_def Q5_def Q6_def)
  define Q7 :: real where "Q7 = 7 / 309485009821345068724781056"
  have r18: "rnd (7 / 309485009821345068724781056) = 7 / 309485009821345068724781056"
    using rnd_fixed [of "7" 88] by simp
  have f18: "fadd Q6 Q1 = Q7"
    using r18 by (simp add: fadd_def Q1_def Q6_def Q7_def)
  define Q8 :: real where "Q8 = 1 / 38685626227668133590597632"
  have r19: "rnd (1 / 38685626227668133590597632) = 1 / 38685626227668133590597632"
    using rnd_fixed [of "1" 85] by simp
  have f19: "fadd Q7 Q1 = Q8"
    using r19 by (simp add: fadd_def Q1_def Q7_def Q8_def)
  have r20: "rnd (1 / 309485009821345068724781056) = 1 / 309485009821345068724781056"
    using rnd_fixed [of "1" 88] by simp
  have f20: "fdiv Q8 8 = Q1"
    using r20 by (simp add: fdiv_def Q1_def Q8_def)
  define E :: real where "E = 351843721 / 17592186044416"
  have r21: "rnd (351843721 / 17592186044416) = 351843721 / 17592186044416"
    using rnd_fixed [of "351843721" 44] by simp
  have f21: "fsub C Mn = E"
    using r21 by (simp add: fsub_def C_def E_def Mn_def)
  define SD :: real where "SD = 1 / 17592186044416"
  define Z :: real where "Z = 351843721"
  have r22: "rnd (351843721) = 351843721"
    using rnd_fixed [of "351843721" 0] by simp
  have f22: "fdiv E SD = Z"
    using r22 by (simp add: fdiv_def E_def SD_def Z_def)
  have root: "sqrt (1 / 309485009821345068724781056) = 1 / 17592186044416"
    by (rule real_sqrt_unique) (simp_all add: power2_eq_square)
  have rsd: "rnd (1 / 17592186044416) = 1 / 17592186044416"
    using rnd_fixed [of 1 44] by simp
  have sd: "fsqrt Q1 = SD"
    by (simp add: fsqrt_def Q1_def SD_def root rsd)
  have sd0: "SD \<noteq> 0"
    by (simp add: SD_def)
  have vals: "window_vals hum_plasma speed 8 = [A, A, A, A, A, A, A, A]"
    by (simp add: window_vals_def upt_8 field_at_def at_index_def nth_opt_def
        hum_plasma_def hum_speeds_def litA)
  have cur: "field_at hum_plasma speed 8 = Some C"
    by (simp add: field_at_def at_index_def nth_opt_def hum_plasma_def hum_speeds_def litC)
  have "zCheck 0 8 hum_plasma speed
          = Some \<lparr>zs_z = Z, zs_mean = Mn, zs_sd = SD, zs_cur = C\<rparr>"
    using zCheck_window [of 8 hum_plasma speed]
    by (simp add: Let_def vals cur sd sd0 f1 f2 f3 f4 f5 f6 f7 f8 f9 f10 f11 f12 f13 f14 f15 f16 f17 f18 f19 f20 f21 f22)
  then show ?thesis
    by (simp add: Z_def Mn_def SD_def C_def)
qed

lemma hum_triggered: "an_speed (detectAnomalyAt hum_plasma mag 8)"
  by (simp add: anomaly_flags hum_zcheck z_triggered_def)

end
